theory Spec2Isabelle
  imports Main "HOL-Library.Word" "HOL-Library.While_Combinator"
begin

section \<open>Python values\<close>

text \<open>
  The synchronisation code of \<^verbatim>\<open>poloniex_bot.py\<close>, \<^verbatim>\<open>poloniex_scraping_bot.py\<close> and the
  market cache of \<^verbatim>\<open>poloniex_wrapper.py\<close> are embedded as HOL functions.

  A \<^verbatim>\<open>datetime\<close> is the number of microseconds since 1970-01-01 00:00:00 on the naive
  (zone-less) calendar, a \<^verbatim>\<open>timedelta\<close> a number of microseconds. Both are unbounded
  integers here: Python's \<^verbatim>\<open>OverflowError\<close> beyond the year 9999 is outside the model.
  A \<^verbatim>\<open>float\<close> is its IEEE-754 binary64 bit pattern; the conversions that produce floats
  are operations of the interpreter and are taken as parameters (record \<open>world\<close>).
\<close>

type_synonym pyfloat = "64 word"

datatype exn =
    TypeError
  | ValueError
  | KeyError
  | OverflowError
  | AttributeError
  | UnboundLocalError
  | EOFError
  | OtherError string

datatype pyval =
    VNone
  | VBool bool
  | VInt int
  | VFloat pyfloat
  | VStr string
  | VDate int
  | VList "pyval list"
  | VDict "(string \<times> pyval) list"

text \<open>
  A \<^verbatim>\<open>dict\<close> is an association list in insertion order with distinct keys.
  \<^verbatim>\<open>d[k] = v\<close> overwrites in place or appends.
\<close>

fun dict_set :: "string \<Rightarrow> pyval \<Rightarrow> (string \<times> pyval) list \<Rightarrow> (string \<times> pyval) list" where
  "dict_set k v [] = [(k, v)]"
| "dict_set k v ((k', v') # d) = (if k' = k then (k, v) # d else (k', v') # dict_set k v d)"

text \<open>\<^verbatim>\<open>x[k] = v\<close> with a string key: only a dict supports it.\<close>

fun py_setitem :: "pyval \<Rightarrow> string \<Rightarrow> pyval \<Rightarrow> exn + pyval" where
  "py_setitem (VDict d) k v = Inr (VDict (dict_set k v d))"
| "py_setitem _ k v = Inl TypeError"

text \<open>\<^verbatim>\<open>x[k]\<close> with a string key.\<close>

fun py_getitem :: "pyval \<Rightarrow> string \<Rightarrow> exn + pyval" where
  "py_getitem (VDict d) k = (case map_of d k of None \<Rightarrow> Inl KeyError | Some v \<Rightarrow> Inr v)"
| "py_getitem _ k = Inl TypeError"

text \<open>\<^verbatim>\<open>for x in v\<close>: the items a value yields, or \<^verbatim>\<open>TypeError\<close> when it is not iterable.\<close>

fun py_iter :: "pyval \<Rightarrow> exn + pyval list" where
  "py_iter (VList xs) = Inr xs"
| "py_iter (VDict d) = Inr (map (\<lambda>kv. VStr (fst kv)) d)"
| "py_iter (VStr s) = Inr (map (\<lambda>c. VStr [c]) s)"
| "py_iter _ = Inl TypeError"

section \<open>The outside world\<close>

text \<open>
  Everything the code reads from outside: the exchange API (through
  \<^verbatim>\<open>Poloniex.api_query\<close>, which raises on a communication error), the document store, the
  wall clock, standard input, and the interpreter's numeric conversions. Calls made inside
  the window loops are indexed by the number of API requests issued before them, so an
  outcome may depend on when the call is made.
\<close>

record world =
  return_public_trade_history :: "nat \<Rightarrow> string \<Rightarrow> int \<Rightarrow> int \<Rightarrow> exn + pyval"
  return_chart_data :: "nat \<Rightarrow> string \<Rightarrow> int \<Rightarrow> int \<Rightarrow> int \<Rightarrow> exn + pyval"
  return_ticker :: "exn + (string \<times> pyval) list"
  return_24h_volume :: "exn + (string \<times> pyval) list"
  insert_many :: "nat \<Rightarrow> pyval \<Rightarrow> exn option"
  now :: "nat \<Rightarrow> int"
  now_text :: "nat \<Rightarrow> string"
  user_input :: "exn + string"
  utcoffset :: "int \<Rightarrow> int"
  float_of_str :: "string \<Rightarrow> pyfloat option"
  float_of_int :: "int \<Rightarrow> pyfloat option"
  int_of_float :: "pyfloat \<Rightarrow> exn + int"
  int_of_str :: "string \<Rightarrow> int option"

text \<open>\<^verbatim>\<open>float(v)\<close> and \<^verbatim>\<open>int(v)\<close>.\<close>

fun py_float :: "world \<Rightarrow> pyval \<Rightarrow> exn + pyfloat" where
  "py_float w (VFloat f) = Inr f"
| "py_float w (VInt i) = (case float_of_int w i of None \<Rightarrow> Inl OverflowError | Some f \<Rightarrow> Inr f)"
| "py_float w (VBool b) =
     (case float_of_int w (if b then 1 else 0) of None \<Rightarrow> Inl OverflowError | Some f \<Rightarrow> Inr f)"
| "py_float w (VStr s) = (case float_of_str w s of None \<Rightarrow> Inl ValueError | Some f \<Rightarrow> Inr f)"
| "py_float w _ = Inl TypeError"

fun py_int :: "world \<Rightarrow> pyval \<Rightarrow> exn + int" where
  "py_int w (VInt i) = Inr i"
| "py_int w (VBool b) = Inr (if b then 1 else 0)"
| "py_int w (VFloat f) = int_of_float w f"
| "py_int w (VStr s) = (case int_of_str w s of None \<Rightarrow> Inl ValueError | Some i \<Rightarrow> Inr i)"
| "py_int w _ = Inl TypeError"

section \<open>Dates\<close>

definition one_day :: int where
  "one_day = 86400000000"

definition one_microsecond :: int where
  "one_microsecond = 1"

definition is_leap :: "int \<Rightarrow> bool" where
  "is_leap y = (y mod 4 = 0 \<and> (y mod 100 \<noteq> 0 \<or> y mod 400 = 0))"

definition days_before_year :: "int \<Rightarrow> int" where
  "days_before_year y = (y - 1) * 365 + (y - 1) div 4 - (y - 1) div 100 + (y - 1) div 400"

definition days_before_month :: "int \<Rightarrow> int \<Rightarrow> int" where
  "days_before_month y m =
     [0, 31, 59, 90, 120, 151, 181, 212, 243, 273, 304, 334] ! nat ((m - 1) mod 12)
       + (if m > 2 \<and> is_leap y then 1 else 0)"

definition ymd2ord :: "int \<Rightarrow> int \<Rightarrow> int \<Rightarrow> int" where
  "ymd2ord y m d = days_before_year y + days_before_month y m + d"

text \<open>The constructor \<^verbatim>\<open>datetime(year, month, day, hour, minute, second, microsecond)\<close>.\<close>

definition datetime :: "int \<Rightarrow> int \<Rightarrow> int \<Rightarrow> int \<Rightarrow> int \<Rightarrow> int \<Rightarrow> int \<Rightarrow> int" where
  "datetime y m d hh mm ss us =
     (((ymd2ord y m d - 719163) * 86400 + hh * 3600 + mm * 60 + ss) * 1000000 + us)"

text \<open>
  \<^verbatim>\<open>datetime.fromtimestamp(t)\<close>: the naive local time of the UNIX second \<open>t\<close>, that is
  \<open>t\<close> shifted by the zone's offset from UTC at that instant.
\<close>

definition fromtimestamp :: "world \<Rightarrow> int \<Rightarrow> int" where
  "fromtimestamp w t = (t + utcoffset w t) * 1000000"

text \<open>
  \<^verbatim>\<open>strftime('%Y%m%d%H%M%S')\<close> renders a datetime to the second; two datetimes get the same
  text exactly when they lie in the same second, so the key is the whole second.
\<close>

definition attempt_key :: "int \<Rightarrow> int" where
  "attempt_key t = t div 1000000"

section \<open>Record normalisation\<close>

text \<open>The loop \<^verbatim>\<open>for trade_part in current_trade: trade_part['market'] = market\<close>.\<close>

definition tag_trade :: "string \<Rightarrow> pyval \<Rightarrow> exn + pyval" where
  "tag_trade market trade_part = py_setitem trade_part ''market'' (VStr market)"

text \<open>\<^verbatim>\<open>trade_part[k] = float(trade_part[k])\<close>.\<close>

definition coerce_float :: "world \<Rightarrow> string \<Rightarrow> pyval \<Rightarrow> exn + pyval" where
  "coerce_float w k trade_part =
     (case py_getitem trade_part k of
        Inl e \<Rightarrow> Inl e
      | Inr v \<Rightarrow> (case py_float w v of
                   Inl e \<Rightarrow> Inl e
                 | Inr f \<Rightarrow> py_setitem trade_part k (VFloat f)))"

text \<open>\<^verbatim>\<open>trade_part['date'] = datetime.fromtimestamp(int(trade_part['date']))\<close>.\<close>

definition coerce_date :: "world \<Rightarrow> pyval \<Rightarrow> exn + pyval" where
  "coerce_date w trade_part =
     (case py_getitem trade_part ''date'' of
        Inl e \<Rightarrow> Inl e
      | Inr v \<Rightarrow> (case py_int w v of
                   Inl e \<Rightarrow> Inl e
                 | Inr t \<Rightarrow> py_setitem trade_part ''date'' (VDate (fromtimestamp w t))))"

fun coerce_floats :: "world \<Rightarrow> string list \<Rightarrow> pyval \<Rightarrow> exn + pyval" where
  "coerce_floats w [] trade_part = Inr trade_part"
| "coerce_floats w (k # ks) trade_part =
     (case coerce_float w k trade_part of
        Inl e \<Rightarrow> Inl e
      | Inr trade_part' \<Rightarrow> coerce_floats w ks trade_part')"

definition numeric_fields :: "string list" where
  "numeric_fields =
     [''high'', ''low'', ''open'', ''close'', ''volume'', ''quoteVolume'', ''weightedAverage'']"

text \<open>The body of the \<^verbatim>\<open>for trade_part in current_trade\<close> loop of the candle sync.\<close>

definition normalize_candle :: "world \<Rightarrow> string \<Rightarrow> pyval \<Rightarrow> exn + pyval" where
  "normalize_candle w market trade_part =
     (case tag_trade market trade_part of
        Inl e \<Rightarrow> Inl e
      | Inr p1 \<Rightarrow> (case coerce_date w p1 of
                    Inl e \<Rightarrow> Inl e
                  | Inr p2 \<Rightarrow> coerce_floats w numeric_fields p2))"

text \<open>A \<^verbatim>\<open>for\<close> loop that updates every item and stops at the first exception.\<close>

fun for_each :: "(pyval \<Rightarrow> exn + pyval) \<Rightarrow> pyval list \<Rightarrow> exn + pyval list" where
  "for_each f [] = Inr []"
| "for_each f (x # xs) =
     (case f x of
        Inl e \<Rightarrow> Inl e
      | Inr x' \<Rightarrow> (case for_each f xs of Inl e \<Rightarrow> Inl e | Inr xs' \<Rightarrow> Inr (x' # xs')))"

text \<open>
  The response after the loop has updated its items in place, with the items themselves
  (what \<^verbatim>\<open>+=\<close> appends). Only the items of a list can be updated; an empty dict or string
  has no items and is left as it is.
\<close>

definition update_items :: "(pyval \<Rightarrow> exn + pyval) \<Rightarrow> pyval \<Rightarrow> exn + pyval \<times> pyval list" where
  "update_items f current_trade =
     (case py_iter current_trade of
        Inl e \<Rightarrow> Inl e
      | Inr items \<Rightarrow>
          (case for_each f items of
             Inl e \<Rightarrow> Inl e
           | Inr items' \<Rightarrow>
               Inr (case current_trade of VList _ \<Rightarrow> VList items' | _ \<Rightarrow> current_trade, items')))"

section \<open>The market cache of the API client\<close>

record poloniex =
  api_key :: "string option"
  secret :: "string option"
  markets :: "string list option"

definition is_dict :: "pyval \<Rightarrow> bool" where
  "is_dict v = (case v of VDict _ \<Rightarrow> True | _ \<Rightarrow> False)"

text \<open>
  Both methods return the outcome together with the instance as they leave it:
  \<^verbatim>\<open>self.markets = []\<close> is assigned before the request, so it stays when the request raises.
\<close>

definition get_all_markets :: "world \<Rightarrow> poloniex \<Rightarrow> (exn + string list) \<times> poloniex" where
  "get_all_markets w self =
     (case markets self of
        Some ms \<Rightarrow> (Inr ms, self)
      | None \<Rightarrow>
          (case return_24h_volume w of
             Inl e \<Rightarrow> (Inl e, self\<lparr>markets := Some []\<rparr>)
           | Inr volumes \<Rightarrow>
               (let ms = map fst (filter (\<lambda>kv. is_dict (snd kv)) volumes)
                in (Inr ms, self\<lparr>markets := Some ms\<rparr>))))"

definition get_all_btc_markets :: "world \<Rightarrow> poloniex \<Rightarrow> (exn + string list) \<times> poloniex" where
  "get_all_btc_markets w self =
     (case markets self of
        Some ms \<Rightarrow> (Inr ms, self)
      | None \<Rightarrow>
          (case return_ticker w of
             Inl e \<Rightarrow> (Inl e, self\<lparr>markets := Some []\<rparr>)
           | Inr volumes \<Rightarrow>
               (let ms = map fst (filter (\<lambda>kv. is_dict (snd kv) \<and> take 3 (fst kv) = ''BTC'') volumes)
                in (Inr ms, self\<lparr>markets := Some ms\<rparr>))))"

section \<open>The window walker\<close>

text \<open>
  The local variables of the three sync functions, and what they have done to the outside:
  \<open>records\<close> is \<^verbatim>\<open>trade_history\<close> or \<^verbatim>\<open>chart_data\<close>, \<open>calls\<close> the API requests issued
  (market, start, end), \<open>stored\<close> the batches \<^verbatim>\<open>insert_many\<close> accepted, \<open>logged\<close> the
  exceptions written by \<^verbatim>\<open>__log__.exception\<close>, \<open>sleeps\<close> the \<^verbatim>\<open>time.sleep\<close> calls in seconds.
\<close>

record walker =
  current_date_start :: int
  current_date_end :: int
  end_date :: int
  atempt :: "int \<rightharpoonup> nat"
  records :: "pyval list"
  calls :: "(string \<times> int \<times> int) list"
  stored :: "pyval list"
  logged :: "exn list"
  sleeps :: "int list"

text \<open>A \<^verbatim>\<open>while\<close> loop; \<open>None\<close> when it never leaves.\<close>

partial_function (option) py_while :: "('s \<Rightarrow> bool) \<Rightarrow> ('s \<Rightarrow> 's) \<Rightarrow> 's \<Rightarrow> 's option" where
  "py_while b c s = (if b s then py_while b c (c s) else Some s)"

declare py_while.simps [code]

text \<open>A \<^verbatim>\<open>for market in currency_pairs\<close> loop around a body that may never return.\<close>

fun for_markets :: "(string \<Rightarrow> walker \<Rightarrow> walker option) \<Rightarrow> string list \<Rightarrow> walker \<Rightarrow> walker option" where
  "for_markets f [] s = Some s"
| "for_markets f (market # rest) s =
     (case f market s of None \<Rightarrow> None | Some s' \<Rightarrow> for_markets f rest s')"

definition in_range :: "walker \<Rightarrow> bool" where
  "in_range s = (current_date_start s < end_date s)"

text \<open>\<^verbatim>\<open>if current_date_end > end_date: current_date_end = end_date\<close>.\<close>

definition clamp_end :: "walker \<Rightarrow> int" where
  "clamp_end s = (if current_date_end s > end_date s then end_date s else current_date_end s)"

text \<open>\<^verbatim>\<open>current_date_start += timedelta(days=1); current_date_end += timedelta(days=1)\<close>.\<close>

definition advance :: "walker \<Rightarrow> walker" where
  "advance s = s\<lparr>current_date_start := current_date_start s + one_day,
                 current_date_end := current_date_end s + one_day\<rparr>"

text \<open>The clamp, and the request noted in \<open>calls\<close>.\<close>

definition begin_attempt :: "string \<Rightarrow> walker \<Rightarrow> walker" where
  "begin_attempt market s =
     s\<lparr>current_date_end := clamp_end s,
       calls := calls s @ [(market, current_date_start s, clamp_end s)]\<rparr>"

text \<open>\<^verbatim>\<open>insert_many(current_trade)\<close> or \<^verbatim>\<open>trade_history += current_trade\<close>.\<close>

definition deliver :: "world \<Rightarrow> nat \<Rightarrow> bool \<Rightarrow> pyval \<times> pyval list \<Rightarrow> exn + pyval \<times> pyval list" where
  "deliver w n to_database batch =
     (if to_database
      then (case insert_many w n (fst batch) of Some e \<Rightarrow> Inl e | None \<Rightarrow> Inr batch)
      else Inr batch)"

definition keep :: "bool \<Rightarrow> pyval \<times> pyval list \<Rightarrow> walker \<Rightarrow> walker" where
  "keep to_database batch s =
     (if to_database then s\<lparr>stored := stored s @ [fst batch]\<rparr>
      else s\<lparr>records := records s @ snd batch\<rparr>)"

subsection \<open>\<^verbatim>\<open>get_trade_history_between_dates\<close>\<close>

text \<open>The \<^verbatim>\<open>try\<close> block up to the hand-over of the batch.\<close>

definition trade_try :: "world \<Rightarrow> nat \<Rightarrow> string \<Rightarrow> int \<Rightarrow> int \<Rightarrow> bool \<Rightarrow> exn + pyval \<times> pyval list" where
  "trade_try w n market a b to_database =
     (case return_public_trade_history w n market a b of
        Inl e \<Rightarrow> Inl e
      | Inr current_trade \<Rightarrow>
          (case update_items (tag_trade market) current_trade of
             Inl e \<Rightarrow> Inl e
           | Inr batch \<Rightarrow> deliver w n to_database batch))"

text \<open>One pass through the body of \<^verbatim>\<open>while current_date_start < end_date\<close>.\<close>

definition trade_step :: "world \<Rightarrow> string \<Rightarrow> bool \<Rightarrow> walker \<Rightarrow> walker" where
  "trade_step w market insert_to_database s =
     (let s1 = begin_attempt market s
      in case trade_try w (length (calls s)) market (current_date_start s1) (current_date_end s1)
                insert_to_database of
           Inl e \<Rightarrow> s1\<lparr>logged := logged s1 @ [e]\<rparr>
         | Inr batch \<Rightarrow> advance (keep insert_to_database batch s1))"

definition start_market :: "int \<Rightarrow> walker \<Rightarrow> walker" where
  "start_market start_date s =
     s\<lparr>current_date_start := start_date,
       current_date_end := start_date + one_day - one_microsecond,
       atempt := Map.empty\<rparr>"

definition trade_market :: "world \<Rightarrow> bool \<Rightarrow> int \<Rightarrow> string \<Rightarrow> walker \<Rightarrow> walker option" where
  "trade_market w insert_to_database start_date market s =
     py_while in_range (trade_step w market insert_to_database) (start_market start_date s)"

definition fresh :: "int \<Rightarrow> walker" where
  "fresh e = \<lparr>current_date_start = 0, current_date_end = 0, end_date = e, atempt = Map.empty,
              records = [], calls = [], stored = [], logged = [], sleeps = []\<rparr>"

text \<open>\<^verbatim>\<open>if not insert_to_database: return trade_history\<close>, otherwise \<^verbatim>\<open>None\<close>.\<close>

definition returned :: "bool \<Rightarrow> walker \<Rightarrow> pyval list option" where
  "returned to_database s = (if to_database then None else Some (records s))"

definition pairs_or :: "(exn + string list) \<times> poloniex \<Rightarrow> string list option \<Rightarrow> exn + string list" where
  "pairs_or fetched currency_pairs = (case currency_pairs of None \<Rightarrow> fst fetched | Some ps \<Rightarrow> Inr ps)"

definition get_trade_history_between_dates ::
  "world \<Rightarrow> poloniex \<Rightarrow> int \<Rightarrow> int \<Rightarrow> string list option \<Rightarrow> bool
     \<Rightarrow> (exn + pyval list option \<times> walker) option" where
  "get_trade_history_between_dates w self start_date end_date0 currency_pairs insert_to_database =
     (case pairs_or (get_all_markets w self) currency_pairs of
        Inl e \<Rightarrow> Some (Inl e)
      | Inr pairs \<Rightarrow>
          (case for_markets (trade_market w insert_to_database start_date) pairs (fresh end_date0) of
             None \<Rightarrow> None
           | Some s \<Rightarrow> Some (Inr (returned insert_to_database s, s))))"

subsection \<open>\<^verbatim>\<open>get_chart_data_between_dates\<close>\<close>

definition chart_try ::
  "world \<Rightarrow> nat \<Rightarrow> string \<Rightarrow> int \<Rightarrow> int \<Rightarrow> int \<Rightarrow> bool \<Rightarrow> exn + pyval \<times> pyval list" where
  "chart_try w n market a b period to_database =
     (case return_chart_data w n market a b period of
        Inl e \<Rightarrow> Inl e
      | Inr current_trade \<Rightarrow>
          (case update_items (normalize_candle w market) current_trade of
             Inl e \<Rightarrow> Inl e
           | Inr batch \<Rightarrow> deliver w n to_database batch))"

text \<open>The attempt counter of the window start, set to 1 or incremented.\<close>

definition count_attempt :: "walker \<Rightarrow> walker" where
  "count_attempt s =
     (let k = attempt_key (current_date_start s)
      in s\<lparr>atempt := (atempt s)(k \<mapsto> (case atempt s k of None \<Rightarrow> 1 | Some c \<Rightarrow> c + 1))\<rparr>)"

text \<open>The check after the \<^verbatim>\<open>try\<close> statement: five attempts on the current window start.\<close>

definition stalled :: "walker \<Rightarrow> bool" where
  "stalled s = (atempt s (attempt_key (current_date_start s)) = Some 5)"

definition chart_step :: "world \<Rightarrow> string \<Rightarrow> int \<Rightarrow> bool \<Rightarrow> walker \<Rightarrow> walker" where
  "chart_step w market period insert_to_database s =
     (let s1 = count_attempt (begin_attempt market s);
          s2 = (case chart_try w (length (calls s)) market (current_date_start s1)
                        (current_date_end s1) period insert_to_database of
                  Inl e \<Rightarrow> s1\<lparr>logged := logged s1 @ [e]\<rparr>
                | Inr batch \<Rightarrow> advance (keep insert_to_database batch s1))
      in if stalled s2 then advance s2 else s2)"

definition chart_market :: "world \<Rightarrow> int \<Rightarrow> bool \<Rightarrow> int \<Rightarrow> string \<Rightarrow> walker \<Rightarrow> walker option" where
  "chart_market w period insert_to_database start_date market s =
     py_while in_range (chart_step w market period insert_to_database) (start_market start_date s)"

definition get_chart_data_between_dates ::
  "world \<Rightarrow> poloniex \<Rightarrow> int \<Rightarrow> int \<Rightarrow> int \<Rightarrow> string list option \<Rightarrow> bool
     \<Rightarrow> (exn + pyval list option \<times> walker) option" where
  "get_chart_data_between_dates w self start_date end_date0 period currency_pairs insert_to_database =
     (case pairs_or (get_all_btc_markets w self) currency_pairs of
        Inl e \<Rightarrow> Some (Inl e)
      | Inr pairs \<Rightarrow>
          (case for_markets (chart_market w period insert_to_database start_date) pairs
                  (fresh end_date0) of
             None \<Rightarrow> None
           | Some s \<Rightarrow> Some (Inr (returned insert_to_database s, s))))"

subsection \<open>\<^verbatim>\<open>get_complete_trade_history\<close>\<close>

text \<open>
  After a delivered batch: the live tail when the next window end would pass \<^verbatim>\<open>end_date\<close>,
  the ordinary advance otherwise. \<^verbatim>\<open>datetime.now()\<close> is read once for both assignments.
\<close>

definition tail_or_advance :: "world \<Rightarrow> walker \<Rightarrow> walker" where
  "tail_or_advance w s =
     (if current_date_end s + one_day > end_date s
      then s\<lparr>current_date_start := current_date_end s,
             sleeps := sleeps s @ [60],
             current_date_end := now w (length (calls s)),
             end_date := now w (length (calls s))\<rparr>
      else advance s)"

definition complete_step :: "world \<Rightarrow> string \<Rightarrow> bool \<Rightarrow> walker \<Rightarrow> walker" where
  "complete_step w market mongo_collection s =
     (let s1 = begin_attempt market s
      in case trade_try w (length (calls s)) market (current_date_start s1) (current_date_end s1)
                mongo_collection of
           Inl e \<Rightarrow> s1\<lparr>logged := logged s1 @ [e]\<rparr>
         | Inr batch \<Rightarrow> tail_or_advance w (keep mongo_collection batch s1))"

definition complete_market :: "world \<Rightarrow> bool \<Rightarrow> int \<Rightarrow> string \<Rightarrow> walker \<Rightarrow> walker option" where
  "complete_market w mongo_collection start_date market s =
     py_while in_range (complete_step w market mongo_collection) (start_market start_date s)"

text \<open>
  \<^verbatim>\<open>c.toLower()\<close>: the type \<^verbatim>\<open>str\<close> has the method \<^verbatim>\<open>lower\<close> and no attribute
  \<^verbatim>\<open>toLower\<close>, so the attribute lookup raises for every string.
\<close>

definition str_toLower :: "string \<Rightarrow> exn + string" where
  "str_toLower c = Inl AttributeError"

text \<open>
  The confirmation asked when no markets are given: \<open>Inr True\<close> to go on, \<open>Inr False\<close> for
  the early \<^verbatim>\<open>return\<close>.
\<close>

definition confirm_all_markets :: "world \<Rightarrow> exn + bool" where
  "confirm_all_markets w =
     (case user_input w of
        Inl e \<Rightarrow> Inl e
      | Inr c \<Rightarrow> (case str_toLower c of Inl e \<Rightarrow> Inl e | Inr l \<Rightarrow> Inr (l \<noteq> ''n'')))"

definition complete_run ::
  "world \<Rightarrow> int \<Rightarrow> string list \<Rightarrow> bool \<Rightarrow> (exn + pyval list option \<times> walker) option" where
  "complete_run w currency_start_date pairs mongo_collection =
     (case for_markets (complete_market w mongo_collection currency_start_date) pairs
             (fresh (now w 0)) of
        None \<Rightarrow> None
      | Some s \<Rightarrow> Some (Inr (returned mongo_collection s, s)))"

definition get_complete_trade_history ::
  "world \<Rightarrow> poloniex \<Rightarrow> int \<Rightarrow> string list option \<Rightarrow> bool
     \<Rightarrow> (exn + pyval list option \<times> walker) option" where
  "get_complete_trade_history w self currency_start_date currency_pairs mongo_collection =
     (case currency_pairs of
        Some pairs \<Rightarrow> complete_run w currency_start_date pairs mongo_collection
      | None \<Rightarrow>
          (case fst (get_all_markets w self) of
             Inl e \<Rightarrow> Some (Inl e)
           | Inr pairs \<Rightarrow>
               (case confirm_all_markets w of
                  Inl e \<Rightarrow> Some (Inl e)
                | Inr False \<Rightarrow> Some (Inr (None, fresh 0))
                | Inr True \<Rightarrow> complete_run w currency_start_date pairs mongo_collection)))"

section \<open>The ticker poller\<close>

text \<open>
  The loop over the ticker mapping. It returns the list built so far and the exception
  that stopped it, if any.
\<close>

fun ticker_rows :: "world \<Rightarrow> (string \<times> pyval) list \<Rightarrow> pyval list \<Rightarrow> pyval list \<times> exn option" where
  "ticker_rows w [] tickers = (tickers, None)"
| "ticker_rows w ((market, ticker) # rest) tickers =
     (case py_setitem ticker ''market'' (VStr market) of
        Inl e \<Rightarrow> (tickers, Some e)
      | Inr t1 \<Rightarrow>
          (case py_setitem t1 ''time'' (VStr (now_text w (length tickers))) of
             Inl e \<Rightarrow> (tickers, Some e)
           | Inr t2 \<Rightarrow> ticker_rows w rest (tickers @ [t2])))"

text \<open>
  The \<^verbatim>\<open>try\<close> block: the local variable \<^verbatim>\<open>tickers\<close> as it is when the block is left
  (\<open>None\<close> while unassigned), and the exception caught, if any.
\<close>

definition ticker_try :: "world \<Rightarrow> bool \<Rightarrow> pyval list option \<times> exn option" where
  "ticker_try w insert_to_database =
     (case return_ticker w of
        Inl e \<Rightarrow> (None, Some e)
      | Inr tickers_dict \<Rightarrow>
          (case ticker_rows w tickers_dict [] of
             (tickers, Some e) \<Rightarrow> (Some tickers, Some e)
           | (tickers, None) \<Rightarrow>
               (Some tickers,
                if insert_to_database then insert_many w 0 (VList tickers) else None)))"

text \<open>
  The outcome of the call (an exception, or the value returned, \<open>None\<close> for Python's
  \<^verbatim>\<open>None\<close>) and the exceptions written to the log.
\<close>

definition get_new_ticker_data :: "world \<Rightarrow> bool \<Rightarrow> (exn + pyval list option) \<times> exn list" where
  "get_new_ticker_data w insert_to_database =
     (let (tickers, caught) = ticker_try w insert_to_database;
          log = (case caught of None \<Rightarrow> [] | Some e \<Rightarrow> [e])
      in if \<not> insert_to_database
         then (case tickers of None \<Rightarrow> (Inl UnboundLocalError, log) | Some ts \<Rightarrow> (Inr (Some ts), log))
         else (Inr None, log))"

section \<open>Example worlds\<close>

text \<open>
  The seven numeric strings of the sample candle with the doubles \<^verbatim>\<open>float\<close> gives for them.
\<close>

definition sample_floats :: "string \<Rightarrow> pyfloat option" where
  "sample_floats = map_of
     [(''0.0045388'', 0x3f729746d9026535),
      (''0.00403001'', 0x3f7081c59270db5f),
      (''0.00404545'', 0x3f7091f6372961f9),
      (''0.00427592'', 0x3f7183a088f70a0d),
      (''44.11655644'', 0x40460eeb5248f816),
      (''10259.29079097'', 0x40c409a538a37510),
      (''0.00430015'', 0x3f719d08b9e2e53d)]"

text \<open>
  An exchange that cannot be reached: \<^verbatim>\<open>api_query\<close> ends in \<^verbatim>\<open>json.loads(None)\<close>, a
  \<^verbatim>\<open>TypeError\<close>, on every request. The process runs in UTC, the clock advances by a
  minute per reading, the user answers \<^verbatim>\<open>n\<close>.
\<close>

definition down_world :: world where
  "down_world =
     \<lparr>return_public_trade_history = (\<lambda>n market a b. Inl TypeError),
      return_chart_data = (\<lambda>n market a b period. Inl TypeError),
      return_ticker = Inl TypeError,
      return_24h_volume = Inl TypeError,
      insert_many = (\<lambda>n batch. None),
      now = (\<lambda>n. datetime 2017 8 19 0 0 0 0 + int n * 60000000),
      now_text = (\<lambda>n. ''2017-08-19 00:00:00''),
      user_input = Inr ''n'',
      utcoffset = (\<lambda>t. 0),
      float_of_str = sample_floats,
      float_of_int = (\<lambda>i. None),
      int_of_float = (\<lambda>f. Inl ValueError),
      int_of_str = (\<lambda>s. None)\<rparr>"

text \<open>The candle of the exchange's documentation, at a given UNIX second.\<close>

definition candle :: "int \<Rightarrow> pyval" where
  "candle t = VDict
     [(''date'', VInt t),
      (''high'', VStr ''0.0045388''),
      (''low'', VStr ''0.00403001''),
      (''open'', VStr ''0.00404545''),
      (''close'', VStr ''0.00427592''),
      (''volume'', VStr ''44.11655644''),
      (''quoteVolume'', VStr ''10259.29079097''),
      (''weightedAverage'', VStr ''0.00430015'')]"

definition raw_candle :: pyval where
  "raw_candle = candle 1405699200"

text \<open>What this candle becomes under a market tag, in a process that runs in UTC.\<close>

definition normalized_candle :: "string \<Rightarrow> pyval" where
  "normalized_candle market = VDict
     [(''date'', VDate (datetime 2014 7 18 16 0 0 0)),
      (''high'', VFloat 0x3f729746d9026535),
      (''low'', VFloat 0x3f7081c59270db5f),
      (''open'', VFloat 0x3f7091f6372961f9),
      (''close'', VFloat 0x3f7183a088f70a0d),
      (''volume'', VFloat 0x40460eeb5248f816),
      (''quoteVolume'', VFloat 0x40c409a538a37510),
      (''weightedAverage'', VFloat 0x3f719d08b9e2e53d),
      (''market'', VStr market)]"

definition sample_volumes :: "(string \<times> pyval) list" where
  "sample_volumes =
     [(''BTC_LTC'', VDict [(''BTC'', VStr ''2.23248854''), (''LTC'', VStr ''87.10381314'')]),
      (''USDT_BTC'', VDict [(''USDT'', VStr ''0.981616''), (''BTC'', VStr ''14145'')]),
      (''totalBTC'', VStr ''81.89657704'')]"

text \<open>
  An exchange that answers: one trade or candle per request, dated at the window start.
\<close>

definition up_world :: world where
  "up_world = down_world
     \<lparr>return_public_trade_history :=
        (\<lambda>n market a b. Inr (VList [VDict [(''date'', VInt (a div 1000000))]])),
      return_chart_data :=
        (\<lambda>n market a b period. Inr (VList [candle (a div 1000000)])),
      return_ticker := Inr sample_volumes,
      return_24h_volume := Inr sample_volumes\<rparr>"


definition new_client :: poloniex where
  "new_client = \<lparr>api_key = None, secret = None, markets = None\<rparr>"

section \<open>Windows and loop invariants\<close>

text \<open>
  The windows of the specification: day \<open>k\<close> of the range starts \<open>k\<close> days after the start
  and ends one microsecond before the next day starts, or at the global end if that comes
  first.
\<close>

definition window_at :: "int \<Rightarrow> int \<Rightarrow> nat \<Rightarrow> int \<times> int" where
  "window_at start_date e k =
     (start_date + int k * one_day,
      min (start_date + int k * one_day + one_day - one_microsecond) e)"

definition window_count :: "int \<Rightarrow> int \<Rightarrow> nat" where
  "window_count start_date e = nat ((e - start_date + one_day - 1) div one_day)"

definition windows :: "int \<Rightarrow> int \<Rightarrow> (int \<times> int) list" where
  "windows start_date e = map (window_at start_date e) [0..<window_count start_date e]"

text \<open>What one pass of a loop body does to the window: the same window again, or the next.\<close>

definition retried :: "string \<Rightarrow> walker \<Rightarrow> walker \<Rightarrow> bool" where
  "retried market s s' =
     (current_date_start s' = current_date_start s \<and> current_date_end s' = clamp_end s
      \<and> end_date s' = end_date s
      \<and> calls s' = calls s @ [(market, current_date_start s, clamp_end s)])"

definition advanced :: "string \<Rightarrow> walker \<Rightarrow> walker \<Rightarrow> bool" where
  "advanced market s s' =
     (current_date_start s' = current_date_start s + one_day
      \<and> current_date_end s' = clamp_end s + one_day
      \<and> end_date s' = end_date s
      \<and> calls s' = calls s @ [(market, current_date_start s, clamp_end s)])"

text \<open>The requests of the first \<open>k\<close> windows of a market.\<close>

definition asked :: "string \<Rightarrow> int \<Rightarrow> int \<Rightarrow> nat \<Rightarrow> (string \<times> int \<times> int) list" where
  "asked market start_date e k = map (\<lambda>i. (market, window_at start_date e i)) [0..<k]"

text \<open>
  The loop invariant of the window walk of one market that began after \<open>n0\<close> requests:
  the walker stands on the start of window \<open>k\<close>, and the requests made so far, without
  the repetitions, are those of the windows before \<open>k\<close>, or up to \<open>k\<close> when window \<open>k\<close>
  has been tried already.
\<close>

definition walk_inv :: "string \<Rightarrow> int \<Rightarrow> int \<Rightarrow> nat \<Rightarrow> walker \<Rightarrow> bool" where
  "walk_inv market start_date e n0 s =
     (end_date s = e \<and> n0 \<le> length (calls s)
      \<and> min (current_date_end s) e = min (current_date_start s + one_day - one_microsecond) e
      \<and> (\<exists>k. current_date_start s = start_date + int k * one_day
              \<and> start_date + int k * one_day < e + one_day
              \<and> (remdups_adj (drop n0 (calls s)) = asked market start_date e k
                   \<or> (current_date_start s < e
                       \<and> remdups_adj (drop n0 (calls s)) = asked market start_date e (Suc k)))))"

text \<open>The same when no request is ever repeated.\<close>

definition exact_inv :: "string \<Rightarrow> int \<Rightarrow> int \<Rightarrow> nat \<Rightarrow> walker \<Rightarrow> bool" where
  "exact_inv market start_date e n0 s =
     (end_date s = e \<and> n0 \<le> length (calls s)
      \<and> min (current_date_end s) e = min (current_date_start s + one_day - one_microsecond) e
      \<and> (\<exists>k. current_date_start s = start_date + int k * one_day
              \<and> start_date + int k * one_day < e + one_day
              \<and> drop n0 (calls s) = asked market start_date e k))"

text \<open>The attempts made on the current window start.\<close>

definition tries :: "walker \<Rightarrow> nat" where
  "tries s = (case atempt s (attempt_key (current_date_start s)) of None \<Rightarrow> 0 | Some c \<Rightarrow> c)"

text \<open>
  The invariant of the attempt counters: no counter for a later window start, and fewer
  than five attempts on the current one.
\<close>

definition chart_inv :: "walker \<Rightarrow> bool" where
  "chart_inv s =
     ((\<forall>key. atempt s key \<noteq> None \<longrightarrow> key \<le> attempt_key (current_date_start s))
      \<and> tries s < 5)"

section \<open>Loops\<close>

lemma py_while_iter:
  "\<not> b ((c ^^ k) s) \<Longrightarrow> (\<forall>j<k. b ((c ^^ j) s)) \<Longrightarrow> py_while b c s = Some ((c ^^ k) s)"
proof (induction k arbitrary: s)
  case 0
  then show ?case by (simp add: py_while.simps)
next
  case (Suc k)
  from Suc.prems(2) have b0: "b s" by (metis funpow_0 zero_less_Suc)
  have 1: "\<not> b ((c ^^ k) (c s))" using Suc.prems(1) by (simp add: funpow_swap1)
  have 2: "\<forall>j<k. b ((c ^^ j) (c s))"
  proof (intro allI impI)
    fix j assume "j < k"
    then have "b ((c ^^ Suc j) s)" using Suc.prems(2) by (meson Suc_less_eq)
    then show "b ((c ^^ j) (c s))" by (simp add: funpow_swap1)
  qed
  have "py_while b c (c s) = Some ((c ^^ k) (c s))" by (rule Suc.IH[OF 1 2])
  then show ?case using b0 by (subst py_while.simps) (simp add: funpow_swap1)
qed

lemma py_while_SomeD:
  assumes "py_while b c s = Some t"
  shows "\<exists>k. t = (c ^^ k) s \<and> \<not> b t"
proof (rule py_while.raw_induct[where P = "\<lambda>b c s t. \<exists>k. t = (c ^^ k) s \<and> \<not> b t", OF _ assms])
  fix f :: "('a \<Rightarrow> bool) \<Rightarrow> ('a \<Rightarrow> 'a) \<Rightarrow> 'a \<Rightarrow> 'a option" and b c s t
  assume IH: "\<And>b c s t. f b c s = Some t \<Longrightarrow> \<exists>k. t = (c ^^ k) s \<and> \<not> b t"
    and unfolded: "(if b s then f b c (c s) else Some s) = Some t"
  show "\<exists>k. t = (c ^^ k) s \<and> \<not> b t"
  proof (cases "b s")
    case True
    with unfolded have "f b c (c s) = Some t" by simp
    from IH[OF this] obtain k where "t = (c ^^ k) (c s)" "\<not> b t" by blast
    then have "t = (c ^^ Suc k) s \<and> \<not> b t" by (simp add: funpow_swap1)
    then show ?thesis by blast
  next
    case False
    with unfolded have "t = (c ^^ 0) s \<and> \<not> b t" by simp
    then show ?thesis by blast
  qed
qed

lemma py_while_eq: "py_while b c s = while_option b c s"
proof (cases "\<exists>k. \<not> b ((c ^^ k) s)")
  case True
  define k where "k = (LEAST k. \<not> b ((c ^^ k) s))"
  have 1: "\<not> b ((c ^^ k) s)" unfolding k_def using True by (rule LeastI_ex)
  have 2: "\<forall>j<k. b ((c ^^ j) s)" unfolding k_def using not_less_Least by blast
  have "py_while b c s = Some ((c ^^ k) s)" by (rule py_while_iter[OF 1 2])
  then show ?thesis using True by (simp add: while_option_def k_def)
next
  case False
  then have "py_while b c s = None"
    using py_while_SomeD[of b c s] by (cases "py_while b c s") auto
  then show ?thesis using False by (simp add: while_option_def)
qed

section \<open>Normalisation\<close>

lemma map_of_dict_set: "map_of (dict_set k v d) = (map_of d)(k \<mapsto> v)"
  by (induction d) (auto simp: fun_eq_iff)

lemma dict_set_same: "map_of d k = Some v \<Longrightarrow> dict_set k v d = d"
  by (induction d) (auto split: if_splits)

lemma coerce_float_dict:
  assumes "coerce_float w k p = Inr r"
  shows "\<exists>d f. p = VDict d \<and> r = VDict (dict_set k (VFloat f) d)"
  using assms
  by (cases p) (auto simp: coerce_float_def split: option.splits sum.splits)

lemma coerce_floats_fields:
  assumes "coerce_floats w ks (VDict d) = Inr r"
  shows "\<exists>d'. r = VDict d'
           \<and> (\<forall>k. (k \<in> set ks \<longrightarrow> (\<exists>f. map_of d' k = Some (VFloat f)))
                  \<and> (k \<notin> set ks \<longrightarrow> map_of d' k = map_of d k))"
  using assms
proof (induction ks arbitrary: d)
  case Nil
  then show ?case by auto
next
  case (Cons k0 ks)
  from Cons.prems obtain p1 where p1: "coerce_float w k0 (VDict d) = Inr p1"
    and rest: "coerce_floats w ks p1 = Inr r"
    by (auto split: sum.splits)
  from coerce_float_dict[OF p1] obtain f where p1_eq: "p1 = VDict (dict_set k0 (VFloat f) d)"
    by auto
  from Cons.IH[OF rest[unfolded p1_eq]] obtain d' where r: "r = VDict d'"
    and flds: "\<forall>k. (k \<in> set ks \<longrightarrow> (\<exists>f. map_of d' k = Some (VFloat f)))
                  \<and> (k \<notin> set ks \<longrightarrow> map_of d' k = map_of (dict_set k0 (VFloat f) d) k)"
    by blast
  have "\<exists>g. map_of d' k0 = Some (VFloat g)"
    using flds by (cases "k0 \<in> set ks") (auto simp: map_of_dict_set)
  then have "\<forall>k. (k \<in> set (k0 # ks) \<longrightarrow> (\<exists>f. map_of d' k = Some (VFloat f)))
                  \<and> (k \<notin> set (k0 # ks) \<longrightarrow> map_of d' k = map_of d k)"
    using flds by (auto simp: map_of_dict_set)
  with r show ?case by blast
qed

lemma coerce_floats_stable:
  assumes "\<forall>k\<in>set ks. \<exists>f. map_of d k = Some (VFloat f)"
  shows "coerce_floats w ks (VDict d) = Inr (VDict d)"
  using assms
  by (induction ks) (auto simp: coerce_float_def dict_set_same)

lemma normalize_candle_shape:
  assumes "normalize_candle w market p = Inr r"
  shows "\<exists>d t. r = VDict d \<and> map_of d ''market'' = Some (VStr market)
           \<and> map_of d ''date'' = Some (VDate t)
           \<and> (\<forall>k\<in>set numeric_fields. \<exists>f. map_of d k = Some (VFloat f))"
proof -
  from assms obtain p1 p2 where p1: "tag_trade market p = Inr p1"
    and p2: "coerce_date w p1 = Inr p2"
    and r: "coerce_floats w numeric_fields p2 = Inr r"
    by (auto simp: normalize_candle_def split: sum.splits)
  from p1 obtain d0 where p1_eq: "p1 = VDict (dict_set ''market'' (VStr market) d0)"
    by (cases p) (auto simp: tag_trade_def)
  from p2 obtain t where p2_eq:
    "p2 = VDict (dict_set ''date'' (VDate t) (dict_set ''market'' (VStr market) d0))"
    unfolding p1_eq by (auto simp: coerce_date_def split: option.splits sum.splits)
  from coerce_floats_fields[OF r[unfolded p2_eq]] obtain d where d: "r = VDict d"
    and flds: "\<forall>k. (k \<in> set numeric_fields \<longrightarrow> (\<exists>f. map_of d k = Some (VFloat f)))
       \<and> (k \<notin> set numeric_fields \<longrightarrow>
            map_of d k = map_of (dict_set ''date'' (VDate t) (dict_set ''market'' (VStr market) d0)) k)"
    by blast
  have "''market'' \<notin> set numeric_fields" "''date'' \<notin> set numeric_fields"
    by (simp_all add: numeric_fields_def)
  with flds have "map_of d ''market'' = Some (VStr market)" "map_of d ''date'' = Some (VDate t)"
    by (simp_all add: map_of_dict_set)
  with d flds show ?thesis by blast
qed

text \<open>
  Claim C7, as amended. Candle normalisation is not idempotent. Once a record has been
  normalised, normalising the result again (under any market tag) raises \<^verbatim>\<open>TypeError\<close>:
  its \<^verbatim>\<open>date\<close> is a datetime by then, and \<^verbatim>\<open>int\<close> does not accept one. The other two
  parts are stable on the result: attaching the same market tag and coercing the seven
  numeric fields to float again both leave it as it is.
\<close>
theorem renormalize_raises:
  assumes "normalize_candle w market trade_part = Inr r"
  shows "normalize_candle w market' r = Inl TypeError
         \<and> tag_trade market r = Inr r
         \<and> coerce_floats w numeric_fields r = Inr r"
proof -
  from normalize_candle_shape[OF assms] obtain d t where r: "r = VDict d"
    and m: "map_of d ''market'' = Some (VStr market)"
    and dt: "map_of d ''date'' = Some (VDate t)"
    and fl: "\<forall>k\<in>set numeric_fields. \<exists>f. map_of d k = Some (VFloat f)"
    by blast
  have 1: "normalize_candle w market' r = Inl TypeError"
    using dt by (simp add: r normalize_candle_def tag_trade_def coerce_date_def map_of_dict_set)
  have 2: "tag_trade market r = Inr r"
    using m by (simp add: r tag_trade_def dict_set_same)
  have 3: "coerce_floats w numeric_fields r = Inr r"
    unfolding r by (rule coerce_floats_stable[OF fl])
  from 1 2 3 show ?thesis by blast
qed

lemma normalize_raw_candle_down:
  "normalize_candle down_world market raw_candle = Inr (normalized_candle market)"
  by (simp add: normalize_candle_def raw_candle_def candle_def tag_trade_def coerce_date_def
      coerce_float_def numeric_fields_def down_world_def sample_floats_def fromtimestamp_def
      normalized_candle_def datetime_def ymd2ord_def days_before_year_def
      days_before_month_def is_leap_def)

text \<open>
  The sample candle: normalised once it is the record above, and that record stays as it
  is under the tag and the float coercions, but normalising it again raises.
\<close>

theorem renormalize_raises_witness:
  "normalize_candle down_world ''BTC_XMR'' raw_candle = Inr (normalized_candle ''BTC_XMR'')
   \<and> normalize_candle down_world ''BTC_XMR'' (normalized_candle ''BTC_XMR'') = Inl TypeError
   \<and> tag_trade ''BTC_XMR'' (normalized_candle ''BTC_XMR'') = Inr (normalized_candle ''BTC_XMR'')
   \<and> coerce_floats down_world numeric_fields (normalized_candle ''BTC_XMR'')
       = Inr (normalized_candle ''BTC_XMR'')"
  using renormalize_raises[OF normalize_raw_candle_down, of "''BTC_XMR''" "''BTC_XMR''"]
    normalize_raw_candle_down[of "''BTC_XMR''"] by simp

text \<open>
  Against C7 as stated: normalising the sample candle twice does not give what normalising
  it once gives.
\<close>

theorem renormalize_counterexample:
  "normalize_candle down_world ''BTC_XMR'' raw_candle = Inr (normalized_candle ''BTC_XMR'')
   \<and> normalize_candle down_world ''BTC_XMR'' (normalized_candle ''BTC_XMR'')
       \<noteq> Inr (normalized_candle ''BTC_XMR'')"
proof -
  have "normalize_candle down_world ''BTC_XMR'' (normalized_candle ''BTC_XMR'') = Inl TypeError"
    by (simp add: normalize_candle_def normalized_candle_def tag_trade_def coerce_date_def)
  then show ?thesis by (simp add: normalize_raw_candle_down)
qed

text \<open>
  Claim C6, as amended. Normalising the sample candle gives a record whose \<^verbatim>\<open>date\<close> is
  the local datetime of UNIX second 1405699200, which is 2014-07-18 16:00:00 shifted by
  the zone's offset from UTC (16:00:00 in UTC itself, 12:00:00 only four hours west of
  it); whose seven numeric fields are the doubles \<^verbatim>\<open>float\<close> gives for the seven
  strings; and whose \<^verbatim>\<open>market\<close> field is the caller's tag.
\<close>
theorem candle_example_normalized:
  assumes "float_of_str w ''0.0045388'' = Some high"
    and "float_of_str w ''0.00403001'' = Some low"
    and "float_of_str w ''0.00404545'' = Some opn"
    and "float_of_str w ''0.00427592'' = Some cls"
    and "float_of_str w ''44.11655644'' = Some volume"
    and "float_of_str w ''10259.29079097'' = Some quote_volume"
    and "float_of_str w ''0.00430015'' = Some weighted_average"
  shows "normalize_candle w market raw_candle = Inr (VDict
       [(''date'', VDate (datetime 2014 7 18 16 0 0 0 + utcoffset w 1405699200 * 1000000)),
        (''high'', VFloat high),
        (''low'', VFloat low),
        (''open'', VFloat opn),
        (''close'', VFloat cls),
        (''volume'', VFloat volume),
        (''quoteVolume'', VFloat quote_volume),
        (''weightedAverage'', VFloat weighted_average),
        (''market'', VStr market)])"
  using assms
  by (simp add: normalize_candle_def raw_candle_def candle_def tag_trade_def coerce_date_def
      coerce_float_def numeric_fields_def fromtimestamp_def datetime_def ymd2ord_def
      days_before_year_def days_before_month_def is_leap_def)

text \<open>The sample candle in a process that runs in UTC, with the doubles of its strings.\<close>

theorem candle_example_normalized_witness:
  "float_of_str down_world ''0.0045388'' = Some 0x3f729746d9026535
   \<and> utcoffset down_world 1405699200 = 0
   \<and> normalize_candle down_world ''BTC_XMR'' raw_candle = Inr (VDict
       [(''date'', VDate (datetime 2014 7 18 16 0 0 0)),
        (''high'', VFloat 0x3f729746d9026535),
        (''low'', VFloat 0x3f7081c59270db5f),
        (''open'', VFloat 0x3f7091f6372961f9),
        (''close'', VFloat 0x3f7183a088f70a0d),
        (''volume'', VFloat 0x40460eeb5248f816),
        (''quoteVolume'', VFloat 0x40c409a538a37510),
        (''weightedAverage'', VFloat 0x3f719d08b9e2e53d),
        (''market'', VStr ''BTC_XMR'')])"
  using candle_example_normalized[of down_world "0x3f729746d9026535" "0x3f7081c59270db5f"
      "0x3f7091f6372961f9" "0x3f7183a088f70a0d" "0x40460eeb5248f816" "0x40c409a538a37510"
      "0x3f719d08b9e2e53d" "''BTC_XMR''"]
  by (simp add: down_world_def sample_floats_def)

text \<open>
  Against C6 as stated: in a process that runs in UTC the normalised \<^verbatim>\<open>date\<close> is
  2014-07-18 16:00:00, which is not 2014-07-18 12:00:00.
\<close>

theorem candle_example_date_counterexample:
  "normalize_candle down_world ''BTC_XMR'' raw_candle = Inr (normalized_candle ''BTC_XMR'')
   \<and> py_getitem (normalized_candle ''BTC_XMR'') ''date''
       = Inr (VDate (datetime 2014 7 18 16 0 0 0))
   \<and> datetime 2014 7 18 16 0 0 0 \<noteq> datetime 2014 7 18 12 0 0 0"
proof -
  have "py_getitem (normalized_candle ''BTC_XMR'') ''date''
       = Inr (VDate (datetime 2014 7 18 16 0 0 0))"
    by (simp add: normalized_candle_def)
  moreover have "datetime 2014 7 18 16 0 0 0 \<noteq> datetime 2014 7 18 12 0 0 0"
    by (simp add: datetime_def)
  ultimately show ?thesis by (simp add: normalize_raw_candle_down)
qed

text \<open>
  Claim C9. When the ticker request raises, \<^verbatim>\<open>get_new_ticker_data(False)\<close> raises itself
  (\<^verbatim>\<open>UnboundLocalError\<close>: \<^verbatim>\<open>tickers\<close> is read in the \<^verbatim>\<open>return\<close> statement and was never
  assigned), after logging the caught exception; with \<^verbatim>\<open>insert_to_database=True\<close> the
  exception is caught and logged and the call returns \<^verbatim>\<open>None\<close>.
\<close>
theorem ticker_fetch_raises:
  assumes "return_ticker w = Inl e"
  shows "get_new_ticker_data w False = (Inl UnboundLocalError, [e])
         \<and> get_new_ticker_data w True = (Inr None, [e])"
  using assms by (simp add: get_new_ticker_data_def ticker_try_def)

text \<open>On the exchange that cannot be reached.\<close>

theorem ticker_fetch_raises_witness:
  "return_ticker down_world = Inl TypeError
   \<and> get_new_ticker_data down_world False = (Inl UnboundLocalError, [TypeError])
   \<and> get_new_ticker_data down_world True = (Inr None, [TypeError])"
  using ticker_fetch_raises[of down_world TypeError] by (simp add: down_world_def)

lemma confirm_all_markets_raises:
  "user_input w = Inr c \<Longrightarrow> confirm_all_markets w = Inl AttributeError"
  by (simp add: confirm_all_markets_def str_toLower_def)

lemma complete_history_no_pairs:
  assumes "fst (get_all_markets w self) = Inr pairs" and "user_input w = Inr c"
  shows "get_complete_trade_history w self start None coll = Some (Inl AttributeError)"
  using assms by (simp add: get_complete_trade_history_def confirm_all_markets_raises)

lemma up_world_markets:
  "fst (get_all_markets up_world new_client) = Inr [''BTC_LTC'', ''USDT_BTC'']"
  by (simp add: get_all_markets_def up_world_def down_world_def new_client_def
      sample_volumes_def is_dict_def Let_def)

text \<open>
  Claim C8, on the code. With \<^verbatim>\<open>currency_pairs=None\<close> the market list is fetched, the
  user is asked, and the answer is passed to \<^verbatim>\<open>toLower\<close>, which \<^verbatim>\<open>str\<close> does not have:
  the call raises \<^verbatim>\<open>AttributeError\<close> whether the answer is \<^verbatim>\<open>n\<close> or \<^verbatim>\<open>y\<close>. It neither
  returns without syncing nor proceeds.
\<close>
theorem confirmation_raises:
  "get_complete_trade_history up_world new_client (datetime 2017 1 1 0 0 0 0) None False
     = Some (Inl AttributeError)
   \<and> user_input up_world = Inr ''n''
   \<and> get_complete_trade_history (up_world\<lparr>user_input := Inr ''y''\<rparr>) new_client
        (datetime 2017 1 1 0 0 0 0) None False = Some (Inl AttributeError)"
proof -
  have n: "user_input up_world = Inr ''n''"
    by (simp add: up_world_def down_world_def)
  have m: "fst (get_all_markets (up_world\<lparr>user_input := Inr ''y''\<rparr>) new_client)
             = Inr [''BTC_LTC'', ''USDT_BTC'']"
    by (simp add: get_all_markets_def up_world_def down_world_def new_client_def
        sample_volumes_def is_dict_def Let_def)
  show ?thesis
    using complete_history_no_pairs[OF up_world_markets n]
      complete_history_no_pairs[OF m, of "''y''"] n
    by simp
qed

text \<open>
  Claim C10. \<^verbatim>\<open>get_all_markets\<close> and \<^verbatim>\<open>get_all_btc_markets\<close> share the field
  \<^verbatim>\<open>self.markets\<close>. After a first call of either method the field holds a list; if that
  call returned, it returned this list; and any later call of either method, whatever the
  exchange answers by then, returns the same list and leaves the instance as it is. In
  particular \<^verbatim>\<open>get_all_btc_markets\<close> after \<^verbatim>\<open>get_all_markets\<close> on a new instance returns
  every market of the 24-hour volume response, with no filter on the \<^verbatim>\<open>BTC\<close> prefix.
\<close>
theorem markets_cache_shared:
  "\<exists>by_volume by_ticker.
      markets (snd (get_all_markets w self)) = Some by_volume
    \<and> markets (snd (get_all_btc_markets w self)) = Some by_ticker
    \<and> (\<forall>r. fst (get_all_markets w self) = Inr r \<longrightarrow> r = by_volume)
    \<and> (\<forall>r. fst (get_all_btc_markets w self) = Inr r \<longrightarrow> r = by_ticker)
    \<and> get_all_markets w' (snd (get_all_markets w self))
        = (Inr by_volume, snd (get_all_markets w self))
    \<and> get_all_btc_markets w' (snd (get_all_markets w self))
        = (Inr by_volume, snd (get_all_markets w self))
    \<and> get_all_markets w' (snd (get_all_btc_markets w self))
        = (Inr by_ticker, snd (get_all_btc_markets w self))
    \<and> get_all_btc_markets w' (snd (get_all_btc_markets w self))
        = (Inr by_ticker, snd (get_all_btc_markets w self))
    \<and> (markets self = None \<and> return_24h_volume w = Inr volumes
         \<longrightarrow> by_volume = map fst (filter (\<lambda>kv. is_dict (snd kv)) volumes))"
  by (auto simp: get_all_markets_def get_all_btc_markets_def Let_def
      split: option.splits sum.splits)

text \<open>
  With the sample volume response: \<^verbatim>\<open>USDT_BTC\<close> is returned by
  \<^verbatim>\<open>get_all_btc_markets\<close> after \<^verbatim>\<open>get_all_markets\<close>.
\<close>

theorem markets_cache_shared_witness:
  "get_all_btc_markets up_world (snd (get_all_markets up_world new_client))
     = (Inr [''BTC_LTC'', ''USDT_BTC''], snd (get_all_markets up_world new_client))
   \<and> take 3 ''USDT_BTC'' \<noteq> ''BTC''"
  using markets_cache_shared[of up_world new_client up_world sample_volumes]
  by (auto simp: up_world_def down_world_def new_client_def sample_volumes_def is_dict_def)

section \<open>The window walk\<close>

lemma attempt_key_next: "attempt_key (t + one_day) = attempt_key t + 86400"
  by (simp add: attempt_key_def one_day_def)

lemma remdups_adj_snoc:
  "remdups_adj (xs @ [x]) = (if xs \<noteq> [] \<and> last xs = x then remdups_adj xs else remdups_adj xs @ [x])"
  by (induction xs rule: remdups_adj.induct) auto

lemma asked_Suc: "asked market start_date e (Suc k) = asked market start_date e k @ [(market, window_at start_date e k)]"
  by (simp add: asked_def)

lemma asked_last_neq:
  assumes "remdups_adj xs = asked market start_date e k" "xs \<noteq> []"
  shows "last xs \<noteq> (market, window_at start_date e k)"
proof -
  have "k \<noteq> 0"
  proof
    assume "k = 0"
    with assms(1) have "remdups_adj xs = []" by (simp add: asked_def)
    with assms(2) show False by simp
  qed
  then obtain j where k: "k = Suc j" by (cases k) auto
  have "last xs = last (remdups_adj xs)" by simp
  also have "\<dots> = (market, window_at start_date e j)" by (simp add: assms(1) k asked_Suc)
  finally show ?thesis by (simp add: k window_at_def one_day_def)
qed

lemma asked_extend:
  assumes "remdups_adj xs = asked market start_date e k
           \<or> remdups_adj xs = asked market start_date e (Suc k)"
  shows "remdups_adj (xs @ [(market, window_at start_date e k)]) = asked market start_date e (Suc k)"
  using assms
proof
  assume a: "remdups_adj xs = asked market start_date e k"
  show ?thesis
  proof (cases "xs = []")
    case True
    with a have "k = 0" by (auto simp: asked_def)
    with True show ?thesis by (simp add: asked_def)
  next
    case False
    from asked_last_neq[OF a False] a show ?thesis
      by (simp add: remdups_adj_snoc asked_Suc)
  qed
next
  assume b: "remdups_adj xs = asked market start_date e (Suc k)"
  then have ne: "xs \<noteq> []" by (auto simp: asked_def)
  have "last xs = last (remdups_adj xs)" by simp
  also have "\<dots> = (market, window_at start_date e k)" by (simp add: b asked_Suc)
  finally show ?thesis using ne b by (simp add: remdups_adj_snoc)
qed

lemma clamp_is_window:
  assumes "min (current_date_end s) e = min (current_date_start s + one_day - one_microsecond) e"
    and "end_date s = e" and "current_date_start s = start_date + int k * one_day"
  shows "(current_date_start s, clamp_end s) = window_at start_date e k"
  using assms by (auto simp: clamp_end_def window_at_def min_def split: if_splits)

lemma walk_inv_step:
  assumes inv: "walk_inv market start_date e n0 s" and run: "in_range s"
    and step: "retried market s s' \<or> advanced market s s'"
  shows "walk_inv market start_date e n0 s'"
proof -
  from inv obtain k where e: "end_date s = e" and n0: "n0 \<le> length (calls s)"
    and ce: "min (current_date_end s) e = min (current_date_start s + one_day - one_microsecond) e"
    and cs: "current_date_start s = start_date + int k * one_day"
    and seen: "remdups_adj (drop n0 (calls s)) = asked market start_date e k
               \<or> remdups_adj (drop n0 (calls s)) = asked market start_date e (Suc k)"
    unfolding walk_inv_def by blast
  from run e have lt: "current_date_start s < e" by (simp add: in_range_def)
  have win: "(current_date_start s, clamp_end s) = window_at start_date e k"
    by (rule clamp_is_window[OF ce e cs])
  from step have calls': "calls s' = calls s @ [(market, window_at start_date e k)]"
    and e': "end_date s' = e"
    using win e by (auto simp: retried_def advanced_def)
  have seen': "remdups_adj (drop n0 (calls s')) = asked market start_date e (Suc k)"
    using asked_extend[OF seen] n0 by (simp add: calls')
  have n0': "n0 \<le> length (calls s')" using n0 by (simp add: calls')
  from step show ?thesis
  proof
    assume r: "retried market s s'"
    then have "current_date_start s' = start_date + int k * one_day"
      "current_date_start s' < e"
      "min (current_date_end s') e = min (current_date_start s' + one_day - one_microsecond) e"
      using cs lt ce e by (auto simp: retried_def clamp_end_def)
    moreover have "start_date + int k * one_day < e + one_day"
      using lt cs by (simp add: one_day_def)
    ultimately show ?thesis
      unfolding walk_inv_def using e' n0' seen' by blast
  next
    assume a: "advanced market s s'"
    then have cs': "current_date_start s' = start_date + int (Suc k) * one_day"
      using cs by (simp add: advanced_def algebra_simps)
    have bound: "start_date + int (Suc k) * one_day < e + one_day"
      using lt cs by (simp add: algebra_simps)
    have ce': "min (current_date_end s') e = min (current_date_start s' + one_day - one_microsecond) e"
      using a ce e lt
      by (auto simp: advanced_def clamp_end_def min_def one_day_def one_microsecond_def
          split: if_splits)
    show ?thesis
      unfolding walk_inv_def using e' n0' seen' cs' bound ce' by blast
  qed
qed

lemma div_between:
  fixes x d k :: int
  assumes "0 < d" "k * d \<le> x" "x < k * d + d"
  shows "x div d = k"
proof -
  define r where "r = x - k * d"
  have r: "0 \<le> r" "r < d" using assms by (simp_all add: r_def)
  have "x = r + k * d" by (simp add: r_def)
  then have "x div d = (r + k * d) div d" by simp
  also have "\<dots> = r div d + k" using assms(1) by simp
  also have "r div d = 0" using r by simp
  finally show ?thesis by simp
qed

lemma begin_attempt_fields [simp]:
  "current_date_start (begin_attempt market s) = current_date_start s"
  "current_date_end (begin_attempt market s) = clamp_end s"
  "end_date (begin_attempt market s) = end_date s"
  "atempt (begin_attempt market s) = atempt s"
  "records (begin_attempt market s) = records s"
  "stored (begin_attempt market s) = stored s"
  "logged (begin_attempt market s) = logged s"
  "sleeps (begin_attempt market s) = sleeps s"
  "calls (begin_attempt market s) = calls s @ [(market, current_date_start s, clamp_end s)]"
  by (simp_all add: begin_attempt_def)

lemma count_attempt_fields [simp]:
  "current_date_start (count_attempt s) = current_date_start s"
  "current_date_end (count_attempt s) = current_date_end s"
  "end_date (count_attempt s) = end_date s"
  "records (count_attempt s) = records s"
  "stored (count_attempt s) = stored s"
  "logged (count_attempt s) = logged s"
  "sleeps (count_attempt s) = sleeps s"
  "calls (count_attempt s) = calls s"
  "atempt (count_attempt s) = (atempt s)(attempt_key (current_date_start s) \<mapsto> Suc (tries s))"
  by (simp_all add: count_attempt_def tries_def Let_def split: option.splits)

lemma advance_fields [simp]:
  "current_date_start (advance s) = current_date_start s + one_day"
  "current_date_end (advance s) = current_date_end s + one_day"
  "end_date (advance s) = end_date s"
  "atempt (advance s) = atempt s"
  "records (advance s) = records s"
  "stored (advance s) = stored s"
  "logged (advance s) = logged s"
  "sleeps (advance s) = sleeps s"
  "calls (advance s) = calls s"
  by (simp_all add: advance_def)

lemma keep_fields [simp]:
  "current_date_start (keep to_database batch s) = current_date_start s"
  "current_date_end (keep to_database batch s) = current_date_end s"
  "end_date (keep to_database batch s) = end_date s"
  "atempt (keep to_database batch s) = atempt s"
  "logged (keep to_database batch s) = logged s"
  "sleeps (keep to_database batch s) = sleeps s"
  "calls (keep to_database batch s) = calls s"
  "records (keep to_database batch s) = (if to_database then records s else records s @ snd batch)"
  "stored (keep to_database batch s) = (if to_database then stored s @ [fst batch] else stored s)"
  by (simp_all add: keep_def)

lemma start_market_fields [simp]:
  "current_date_start (start_market start_date s) = start_date"
  "current_date_end (start_market start_date s) = start_date + one_day - one_microsecond"
  "end_date (start_market start_date s) = end_date s"
  "atempt (start_market start_date s) = Map.empty"
  "records (start_market start_date s) = records s"
  "stored (start_market start_date s) = stored s"
  "logged (start_market start_date s) = logged s"
  "sleeps (start_market start_date s) = sleeps s"
  "calls (start_market start_date s) = calls s"
  by (simp_all add: start_market_def)

lemma tries_begin_attempt [simp]: "tries (begin_attempt market s) = tries s"
  by (simp add: tries_def)

lemma chart_invI:
  assumes "\<And>key c. atempt s key = Some c \<Longrightarrow> key \<le> attempt_key (current_date_start s)"
    and "tries s < 5"
  shows "chart_inv s"
  unfolding chart_inv_def using assms by auto

lemma chart_inv_keyD:
  "chart_inv s \<Longrightarrow> atempt s key = Some c \<Longrightarrow> key \<le> attempt_key (current_date_start s)"
  unfolding chart_inv_def by auto

lemma trade_step_failed:
  assumes "trade_try w (length (calls s)) market (current_date_start s) (clamp_end s) to_database = Inl e"
  shows "trade_step w market to_database s = (begin_attempt market s)\<lparr>logged := logged s @ [e]\<rparr>"
  using assms by (simp add: trade_step_def Let_def)

lemma trade_step_delivered:
  assumes "trade_try w (length (calls s)) market (current_date_start s) (clamp_end s) to_database = Inr batch"
  shows "trade_step w market to_database s = advance (keep to_database batch (begin_attempt market s))"
  using assms by (simp add: trade_step_def Let_def)

lemma trade_step_cases:
  "retried market s (trade_step w market to_database s)
   \<or> advanced market s (trade_step w market to_database s)"
proof (cases "trade_try w (length (calls s)) market (current_date_start s) (clamp_end s) to_database")
  case (Inl e)
  then show ?thesis by (simp add: trade_step_failed retried_def)
next
  case (Inr batch)
  then show ?thesis by (simp add: trade_step_delivered advanced_def)
qed

lemma chart_step_failed:
  assumes "chart_try w (length (calls s)) market (current_date_start s) (clamp_end s) period
             to_database = Inl e"
  shows "chart_step w market period to_database s =
           (let s2 = (count_attempt (begin_attempt market s))\<lparr>logged := logged s @ [e]\<rparr>
            in if tries s = 4 then advance s2 else s2)"
  using assms by (auto simp: chart_step_def Let_def stalled_def)

lemma chart_step_delivered:
  assumes "chart_try w (length (calls s)) market (current_date_start s) (clamp_end s) period
             to_database = Inr batch"
    and "atempt s (attempt_key (current_date_start s) + 86400) = None"
  shows "chart_step w market period to_database s =
           advance (keep to_database batch (count_attempt (begin_attempt market s)))"
  using assms by (simp add: chart_step_def Let_def stalled_def attempt_key_next)

lemma chart_inv_next_key:
  assumes "chart_inv s"
  shows "atempt s (attempt_key (current_date_start s) + 86400) = None"
proof (rule ccontr)
  assume "atempt s (attempt_key (current_date_start s) + 86400) \<noteq> None"
  with assms have "attempt_key (current_date_start s) + 86400 \<le> attempt_key (current_date_start s)"
    unfolding chart_inv_def by blast
  then show False by simp
qed

lemma chart_step_cases:
  fixes w market period to_database s
  defines "s' \<equiv> chart_step w market period to_database s"
  assumes inv: "chart_inv s"
  shows "chart_inv s' \<and> ((retried market s s' \<and> tries s' = Suc (tries s)) \<or> advanced market s s')"
proof -
  note nk = chart_inv_next_key[OF inv]
  note keys = chart_inv_keyD[OF inv]
  from inv have few: "tries s < 5"
    unfolding chart_inv_def by blast
  have moved: "chart_inv s'"
    if cs: "current_date_start s' = current_date_start s + one_day"
      and at: "atempt s' = (atempt s)(attempt_key (current_date_start s) \<mapsto> Suc (tries s))"
  proof (rule chart_invI)
    fix key c
    assume "atempt s' key = Some c"
    then have "key = attempt_key (current_date_start s) \<or> atempt s key = Some c"
      by (auto simp: at split: if_splits)
    then have "key \<le> attempt_key (current_date_start s)" using keys by auto
    then show "key \<le> attempt_key (current_date_start s')" by (simp add: cs attempt_key_next)
  next
    show "tries s' < 5" using nk by (simp add: tries_def cs at attempt_key_next)
  qed
  show ?thesis
  proof (cases "chart_try w (length (calls s)) market (current_date_start s) (clamp_end s) period
             to_database")
    case (Inl e)
    show ?thesis
    proof (cases "tries s = 4")
      case True
      with Inl have s': "s' = advance ((count_attempt (begin_attempt market s))\<lparr>logged := logged s @ [e]\<rparr>)"
        by (simp add: s'_def chart_step_failed)
      have "advanced market s s'" by (simp add: s' advanced_def)
      moreover have "chart_inv s'" by (rule moved) (simp_all add: s')
      ultimately show ?thesis by blast
    next
      case False
      with Inl have s': "s' = (count_attempt (begin_attempt market s))\<lparr>logged := logged s @ [e]\<rparr>"
        by (simp add: s'_def chart_step_failed)
      have "retried market s s'" by (simp add: s' retried_def)
      moreover have t: "tries s' = Suc (tries s)" by (simp add: s' tries_def)
      moreover have "chart_inv s'"
      proof (rule chart_invI)
        fix key c
        assume "atempt s' key = Some c"
        then have "key = attempt_key (current_date_start s) \<or> atempt s key = Some c"
          by (auto simp: s' split: if_splits)
        then have "key \<le> attempt_key (current_date_start s)" using keys by auto
        then show "key \<le> attempt_key (current_date_start s')" by (simp add: s')
      next
        show "tries s' < 5" using few False by (simp add: t)
      qed
      ultimately show ?thesis by blast
    qed
  next
    case (Inr batch)
    then have s': "s' = advance (keep to_database batch (count_attempt (begin_attempt market s)))"
      by (simp add: s'_def chart_step_delivered[OF _ nk])
    have "advanced market s s'" by (simp add: s' advanced_def)
    moreover have "chart_inv s'" by (rule moved) (simp_all add: s')
    ultimately show ?thesis by blast
  qed
qed

lemma walk_inv_init:
  assumes "start_date < end_date s0"
  shows "walk_inv market start_date (end_date s0) (length (calls s0)) (start_market start_date s0)"
  unfolding walk_inv_def using assms
  by (auto simp: asked_def one_day_def intro!: exI[of _ 0])

lemma window_count_eq:
  assumes "start_date < e" "e \<le> start_date + int k * one_day"
    "start_date + int k * one_day < e + one_day"
  shows "window_count start_date e = k"
proof -
  have "(e - start_date + one_day - 1) div one_day = int k"
    using assms by (intro div_between) (simp_all add: one_day_def)
  then show ?thesis by (simp add: window_count_def)
qed

lemma asked_all:
  "asked market start_date e (window_count start_date e) = map (Pair market) (windows start_date e)"
  by (simp add: asked_def windows_def)

lemma walk_inv_exit:
  assumes inv: "walk_inv market start_date e n0 s" and stop: "\<not> in_range s"
    and lt: "start_date < e"
  shows "remdups_adj (drop n0 (calls s)) = map (Pair market) (windows start_date e)"
proof -
  from inv stop obtain k where cs: "current_date_start s = start_date + int k * one_day"
    and bound: "start_date + int k * one_day < e + one_day"
    and seen: "remdups_adj (drop n0 (calls s)) = asked market start_date e k"
    and e: "end_date s = e"
    unfolding walk_inv_def in_range_def by auto
  from stop cs e have "e \<le> start_date + int k * one_day" by (simp add: in_range_def)
  from window_count_eq[OF lt this bound] have "k = window_count start_date e" by simp
  then show ?thesis using seen by (simp only: asked_all)
qed

lemma py_while_None:
  assumes step: "\<And>s. I s \<Longrightarrow> b s \<and> I (c s)" and init: "I s"
  shows "py_while b c s = None"
proof (cases "py_while b c s")
  case None
  then show ?thesis .
next
  case (Some t)
  from py_while_SomeD[OF Some] obtain k where t: "t = (c ^^ k) s" and stop: "\<not> b t" by blast
  have "I ((c ^^ k) s)" by (induction k) (use init step in auto)
  with step t stop show ?thesis by blast
qed

lemma trade_market_requests:
  assumes ret: "trade_market w to_database start_date market s0 = Some s'"
    and lt: "start_date < end_date s0"
  shows "remdups_adj (drop (length (calls s0)) (calls s'))
           = map (Pair market) (windows start_date (end_date s0))"
proof -
  let ?I = "walk_inv market start_date (end_date s0) (length (calls s0))"
  from ret have w: "while_option in_range (trade_step w market to_database)
                      (start_market start_date s0) = Some s'"
    by (simp add: trade_market_def py_while_eq)
  have step: "?I (trade_step w market to_database s)" if "?I s" "in_range s" for s
    using that by (rule walk_inv_step) (rule trade_step_cases)
  have "?I s'"
    by (rule while_option_rule[where P = ?I, OF step w walk_inv_init[OF lt]])
  moreover have "\<not> in_range s'" by (rule while_option_stop[OF w])
  ultimately show ?thesis using lt by (rule walk_inv_exit)
qed

lemma chart_market_returns:
  "\<exists>s'. chart_market w period to_database start_date market s0 = Some s'"
proof -
  let ?c = "chart_step w market period to_database"
  let ?f = "\<lambda>s. (nat (end_date s - current_date_start s), 5 - tries s)"
  have "{(t, s). (chart_inv s \<and> in_range s) \<and> t = ?c s}
          \<subseteq> inv_image (less_than <*lex*> less_than) ?f"
  proof clarify
    fix s assume inv: "chart_inv s" and run: "in_range s"
    from chart_step_cases[OF inv, of w market period to_database]
    have "(retried market s (?c s) \<and> tries (?c s) = Suc (tries s)) \<or> advanced market s (?c s)"
      by blast
    moreover from inv have "tries s < 5" by (simp add: chart_inv_def)
    ultimately show "(?c s, s) \<in> inv_image (less_than <*lex*> less_than) ?f"
      using run
      by (auto simp: retried_def advanced_def in_range_def one_day_def)
  qed
  then have wf: "wf {(t, s). (chart_inv s \<and> in_range s) \<and> t = ?c s}"
    by (rule wf_subset[rotated]) (intro wf_inv_image wf_lex_prod wf_less_than)
  have init: "chart_inv (start_market start_date s0)"
    by (simp add: chart_inv_def tries_def)
  have "\<exists>t. while_option in_range ?c (start_market start_date s0) = Some t"
    by (rule wf_while_option_Some[where P = chart_inv, OF wf _ init])
      (use chart_step_cases in blast)
  then show ?thesis by (simp add: chart_market_def py_while_eq)
qed

lemma chart_market_requests:
  assumes ret: "chart_market w period to_database start_date market s0 = Some s'"
    and lt: "start_date < end_date s0"
  shows "remdups_adj (drop (length (calls s0)) (calls s'))
           = map (Pair market) (windows start_date (end_date s0))"
proof -
  let ?I = "\<lambda>s. walk_inv market start_date (end_date s0) (length (calls s0)) s \<and> chart_inv s"
  let ?c = "chart_step w market period to_database"
  from ret have w: "while_option in_range ?c (start_market start_date s0) = Some s'"
    by (simp add: chart_market_def py_while_eq)
  have step: "?I (?c s)" if "?I s" "in_range s" for s
  proof -
    from chart_step_cases[of s w market period to_database] that
    have "chart_inv (?c s)" "retried market s (?c s) \<or> advanced market s (?c s)" by blast+
    with that walk_inv_step show ?thesis by blast
  qed
  have init: "?I (start_market start_date s0)"
    using walk_inv_init[OF lt] by (simp add: chart_inv_def tries_def)
  have "?I s'" by (rule while_option_rule[where P = ?I, OF step w init])
  moreover have "\<not> in_range s'" by (rule while_option_stop[OF w])
  ultimately show ?thesis using lt walk_inv_exit by blast
qed

subsection \<open>The windows of the specification\<close>

lemma window_count_bounds:
  assumes "start_date < e"
  shows "0 < window_count start_date e"
    and "start_date + int (window_count start_date e) * one_day - one_day < e"
    and "e \<le> start_date + int (window_count start_date e) * one_day"
    and "(e - start_date) mod one_day = 0
           \<longleftrightarrow> start_date + int (window_count start_date e) * one_day = e"
proof -
  define x where "x = e - start_date + one_day - 1"
  define c where "c = x div one_day"
  have D: "0 < one_day" by (simp add: one_day_def)
  have x: "x = c * one_day + x mod one_day" by (simp add: c_def)
  have r: "0 \<le> x mod one_day" "x mod one_day < one_day" using D by simp_all
  have "one_day \<le> x" using assms by (simp add: x_def)
  then have c1: "1 \<le> c" using x r unfolding one_day_def by linarith
  then have cnt: "int (window_count start_date e) = c"
    by (simp add: window_count_def c_def x_def)
  from c1 cnt show "0 < window_count start_date e" by simp
  show "start_date + int (window_count start_date e) * one_day - one_day < e"
    using x r by (simp add: cnt x_def)
  show "e \<le> start_date + int (window_count start_date e) * one_day"
    using x r by (simp add: cnt x_def)
  show "(e - start_date) mod one_day = 0
           \<longleftrightarrow> start_date + int (window_count start_date e) * one_day = e"
  proof
    assume "(e - start_date) mod one_day = 0"
    then have "one_day dvd e - start_date" by (simp add: mod_eq_0_iff_dvd)
    then obtain q where q: "e - start_date = q * one_day" by (auto simp: dvd_def mult.commute)
    have "x = (one_day - 1) + q * one_day" by (simp add: x_def q)
    then have "c = (one_day - 1) div one_day + q" unfolding c_def using D by simp
    then have "c = q" by (simp add: one_day_def)
    with q show "start_date + int (window_count start_date e) * one_day = e" by (simp add: cnt)
  next
    assume "start_date + int (window_count start_date e) * one_day = e"
    then have "e - start_date = c * one_day" by (simp add: cnt)
    then show "(e - start_date) mod one_day = 0" by simp
  qed
qed

lemma window_start_before_end:
  assumes "start_date < e" "i < window_count start_date e"
  shows "start_date + int i * one_day < e"
proof -
  from assms(2) have "int i + 1 \<le> int (window_count start_date e)" by simp
  then have "(int i + 1) * one_day \<le> int (window_count start_date e) * one_day"
    by (rule mult_right_mono) (simp add: one_day_def)
  with window_count_bounds(2)[OF assms(1)] show ?thesis by (simp add: algebra_simps)
qed

lemma windows_shape:
  assumes lt: "start_date < e"
  shows "windows start_date e \<noteq> []"
    and "fst (hd (windows start_date e)) = start_date"
    and "\<forall>i. Suc i < length (windows start_date e) \<longrightarrow>
           fst (windows start_date e ! Suc i) = snd (windows start_date e ! i) + one_microsecond"
    and "\<forall>p\<in>set (windows start_date e). fst p < snd p \<and> snd p - fst p < one_day \<and> snd p \<le> e"
    and "snd (last (windows start_date e))
           = (if (e - start_date) mod one_day = 0 then e - one_microsecond else e)"
proof -
  note cb = window_count_bounds[OF lt]
  show ne: "windows start_date e \<noteq> []" using cb(1) by (simp add: windows_def)
  show "fst (hd (windows start_date e)) = start_date"
    using cb(1) by (simp add: windows_def hd_map upt_conv_Cons window_at_def)
  show "\<forall>i. Suc i < length (windows start_date e) \<longrightarrow>
           fst (windows start_date e ! Suc i) = snd (windows start_date e ! i) + one_microsecond"
  proof (intro allI impI)
    fix i assume "Suc i < length (windows start_date e)"
    then have i: "Suc i < window_count start_date e" by (simp add: windows_def)
    from window_start_before_end[OF lt i]
    have "start_date + int i * one_day + one_day - one_microsecond < e"
      by (simp add: algebra_simps one_microsecond_def)
    then show "fst (windows start_date e ! Suc i) = snd (windows start_date e ! i) + one_microsecond"
      using i by (simp add: windows_def window_at_def algebra_simps)
  qed
  show "\<forall>p\<in>set (windows start_date e). fst p < snd p \<and> snd p - fst p < one_day \<and> snd p \<le> e"
  proof
    fix p assume "p \<in> set (windows start_date e)"
    then obtain i where i: "i < window_count start_date e" and p: "p = window_at start_date e i"
      by (auto simp: windows_def)
    from window_start_before_end[OF lt i]
    show "fst p < snd p \<and> snd p - fst p < one_day \<and> snd p \<le> e"
      by (auto simp: p window_at_def one_day_def one_microsecond_def min_def)
  qed
  have "last (windows start_date e) = window_at start_date e (window_count start_date e - 1)"
    using cb(1) by (simp add: windows_def last_map last_upt)
  moreover have "int (window_count start_date e - 1) = int (window_count start_date e) - 1"
    using cb(1) by simp
  ultimately show "snd (last (windows start_date e))
           = (if (e - start_date) mod one_day = 0 then e - one_microsecond else e)"
    using cb(3) cb(4)
    by (auto simp: window_at_def algebra_simps one_microsecond_def min_def)
qed

subsection \<open>A run without failures\<close>

lemma exact_inv_step:
  assumes inv: "exact_inv market start_date e n0 s" and run: "in_range s"
    and step: "advanced market s s'"
  shows "exact_inv market start_date e n0 s'"
proof -
  from inv obtain k where e: "end_date s = e" and n0: "n0 \<le> length (calls s)"
    and ce: "min (current_date_end s) e = min (current_date_start s + one_day - one_microsecond) e"
    and cs: "current_date_start s = start_date + int k * one_day"
    and seen: "drop n0 (calls s) = asked market start_date e k"
    unfolding exact_inv_def by blast
  from run e have lt: "current_date_start s < e" by (simp add: in_range_def)
  have win: "(current_date_start s, clamp_end s) = window_at start_date e k"
    by (rule clamp_is_window[OF ce e cs])
  from step have calls': "calls s' = calls s @ [(market, window_at start_date e k)]"
    and e': "end_date s' = e"
    using win e by (auto simp: advanced_def)
  have seen': "drop n0 (calls s') = asked market start_date e (Suc k)"
    using seen n0 by (simp add: calls' asked_Suc)
  have n0': "n0 \<le> length (calls s')" using n0 by (simp add: calls')
  from step have cs': "current_date_start s' = start_date + int (Suc k) * one_day"
    using cs by (simp add: advanced_def algebra_simps)
  have bound: "start_date + int (Suc k) * one_day < e + one_day"
    using lt cs by (simp add: algebra_simps)
  have ce': "min (current_date_end s') e = min (current_date_start s' + one_day - one_microsecond) e"
    using step ce e lt
    by (auto simp: advanced_def clamp_end_def min_def one_day_def one_microsecond_def
        split: if_splits)
  show ?thesis
    unfolding exact_inv_def using e' n0' seen' cs' bound ce' by blast
qed

lemma trade_market_all_delivered:
  assumes ok: "\<forall>n a b. \<exists>batch. trade_try w n market a b to_database = Inr batch"
    and lt: "start_date < end_date s0"
  shows "\<exists>s'. trade_market w to_database start_date market s0 = Some s'
           \<and> drop (length (calls s0)) (calls s') = map (Pair market) (windows start_date (end_date s0))"
proof -
  let ?c = "trade_step w market to_database"
  let ?I = "exact_inv market start_date (end_date s0) (length (calls s0))"
  have adv: "advanced market s (?c s)" for s
  proof -
    from ok obtain batch where
      "trade_try w (length (calls s)) market (current_date_start s) (clamp_end s) to_database
         = Inr batch" by blast
    then show ?thesis by (simp add: trade_step_delivered advanced_def)
  qed
  have "{(t, s). (?I s \<and> in_range s) \<and> t = ?c s}
          \<subseteq> measure (\<lambda>s. nat (end_date s - current_date_start s))"
    using adv by (auto simp: advanced_def in_range_def one_day_def)
  then have wf: "wf {(t, s). (?I s \<and> in_range s) \<and> t = ?c s}"
    by (rule wf_subset[rotated]) simp
  have init: "?I (start_market start_date s0)"
    unfolding exact_inv_def using lt
    by (auto simp: asked_def one_day_def intro!: exI[of _ 0])
  have step: "?I (?c s)" if "?I s" "in_range s" for s
    using that adv by (rule exact_inv_step)
  from wf_while_option_Some[where P = ?I, OF wf step init]
  obtain s' where w: "while_option in_range ?c (start_market start_date s0) = Some s'"
    by blast
  have "?I s'" by (rule while_option_rule[where P = ?I, OF step w init])
  moreover have stop: "\<not> in_range s'" by (rule while_option_stop[OF w])
  ultimately obtain k where cs: "current_date_start s' = start_date + int k * one_day"
    and bound: "start_date + int k * one_day < end_date s0 + one_day"
    and seen: "drop (length (calls s0)) (calls s') = asked market start_date (end_date s0) k"
    and e: "end_date s' = end_date s0"
    unfolding exact_inv_def by blast
  from stop cs e have "end_date s0 \<le> start_date + int k * one_day" by (simp add: in_range_def)
  from window_count_eq[OF lt this bound] have "k = window_count start_date (end_date s0)" by simp
  then have "drop (length (calls s0)) (calls s')
               = map (Pair market) (windows start_date (end_date s0))"
    using seen by (simp only: asked_all)
  with w show ?thesis by (simp add: trade_market_def py_while_eq)
qed

subsection \<open>Failed attempts\<close>

lemma clamp_end_again:
  "current_date_end s' = clamp_end s \<Longrightarrow> end_date s' = end_date s \<Longrightarrow> clamp_end s' = clamp_end s"
  by (simp add: clamp_end_def)

lemma trade_try_unreachable:
  "return_public_trade_history w n market a b = Inl e \<Longrightarrow> trade_try w n market a b to_database = Inl e"
  by (simp add: trade_try_def)

lemma chart_try_unreachable:
  "return_chart_data w n market a b period = Inl e \<Longrightarrow> chart_try w n market a b period to_database = Inl e"
  by (simp add: chart_try_def)

lemma chart_step_failed_fields:
  assumes "chart_try w (length (calls s)) market (current_date_start s) (clamp_end s) period
             to_database = Inl e"
  shows "current_date_start (chart_step w market period to_database s)
           = (if tries s = 4 then current_date_start s + one_day else current_date_start s)"
    and "current_date_end (chart_step w market period to_database s)
           = (if tries s = 4 then clamp_end s + one_day else clamp_end s)"
    and "end_date (chart_step w market period to_database s) = end_date s"
    and "records (chart_step w market period to_database s) = records s"
    and "logged (chart_step w market period to_database s) = logged s @ [e]"
    and "atempt (chart_step w market period to_database s)
           = (atempt s)(attempt_key (current_date_start s) \<mapsto> Suc (tries s))"
    and "calls (chart_step w market period to_database s)
           = calls s @ [(market, current_date_start s, clamp_end s)]"
  by (simp_all add: chart_step_failed[OF assms] Let_def)

lemma complete_step_failed:
  assumes "trade_try w (length (calls s)) market (current_date_start s) (clamp_end s) to_database = Inl e"
  shows "complete_step w market to_database s = (begin_attempt market s)\<lparr>logged := logged s @ [e]\<rparr>"
  using assms by (simp add: complete_step_def Let_def)

lemma complete_step_delivered:
  assumes "trade_try w (length (calls s)) market (current_date_start s) (clamp_end s) to_database = Inr batch"
  shows "complete_step w market to_database s
           = tail_or_advance w (keep to_database batch (begin_attempt market s))"
  using assms by (simp add: complete_step_def Let_def)

lemma chart_fail_iter:
  assumes fail: "\<And>n a b. \<exists>e. return_chart_data w n market a b period = Inl e"
    and fresh: "tries s = 0" and k: "k \<le> 4"
  shows "current_date_start ((chart_step w market period to_database ^^ k) s) = current_date_start s
       \<and> tries ((chart_step w market period to_database ^^ k) s) = k
       \<and> end_date ((chart_step w market period to_database ^^ k) s) = end_date s
       \<and> clamp_end ((chart_step w market period to_database ^^ k) s) = clamp_end s"
  using k
proof (induction k)
  case 0
  then show ?case by (simp add: fresh)
next
  case (Suc k)
  let ?t = "(chart_step w market period to_database ^^ k) s"
  from Suc have t: "current_date_start ?t = current_date_start s" "tries ?t = k"
    "end_date ?t = end_date s" "clamp_end ?t = clamp_end s" by simp_all
  from fail obtain e where "return_chart_data w (length (calls ?t)) market (current_date_start ?t)
      (clamp_end ?t) period = Inl e" by blast
  note f = chart_step_failed_fields[OF chart_try_unreachable[OF this], of to_database]
  from Suc.prems t have k4: "tries ?t \<noteq> 4" by simp
  have cs: "current_date_start (chart_step w market period to_database ?t) = current_date_start s"
    using f(1) k4 t by simp
  have "tries (chart_step w market period to_database ?t) = Suc k"
    using f(1,6) k4 t by (simp add: tries_def)
  moreover have "clamp_end (chart_step w market period to_database ?t) = clamp_end s"
    using clamp_end_again[of "chart_step w market period to_database ?t" ?t] f(2,3) k4 t by simp
  ultimately show ?case using cs f(3) t by simp
qed

lemma chart_fail_fifth:
  assumes fail: "\<And>n a b. \<exists>e. return_chart_data w n market a b period = Inl e"
    and fresh: "tries s = 0"
  shows "current_date_start ((chart_step w market period to_database ^^ 5) s)
           = current_date_start s + one_day"
    and "current_date_end ((chart_step w market period to_database ^^ 5) s)
           = clamp_end s + one_day"
proof -
  let ?t = "(chart_step w market period to_database ^^ 4) s"
  from chart_fail_iter[OF fail fresh, of 4 to_database]
  have t: "current_date_start ?t = current_date_start s" "tries ?t = 4"
    "clamp_end ?t = clamp_end s" by simp_all
  from fail obtain e where "return_chart_data w (length (calls ?t)) market (current_date_start ?t)
      (clamp_end ?t) period = Inl e" by blast
  note f = chart_step_failed_fields[OF chart_try_unreachable[OF this], of to_database]
  have five: "(chart_step w market period to_database ^^ 5) s
                = chart_step w market period to_database ?t"
    by (simp add: eval_nat_numeral)
  show "current_date_start ((chart_step w market period to_database ^^ 5) s)
           = current_date_start s + one_day"
    unfolding five using f(1) t by simp
  show "current_date_end ((chart_step w market period to_database ^^ 5) s)
           = clamp_end s + one_day"
    unfolding five using f(2) t by simp
qed

subsection \<open>Loops that never leave\<close>

lemma trade_market_stuck:
  assumes fail: "\<And>n a b. \<exists>e. return_public_trade_history w n market a b = Inl e"
    and lt: "start_date < end_date s0"
  shows "trade_market w to_database start_date market s0 = None"
  unfolding trade_market_def
proof (rule py_while_None[where I = "\<lambda>s::walker. current_date_start s = start_date \<and> end_date s = end_date s0"])
  fix s :: walker assume I: "current_date_start s = start_date \<and> end_date s = end_date s0"
  from fail obtain e where "return_public_trade_history w (length (calls s)) market
      (current_date_start s) (clamp_end s) = Inl e" by blast
  from trade_step_failed[OF trade_try_unreachable[OF this], of to_database] I lt
  show "in_range s \<and> (current_date_start (trade_step w market to_database s) = start_date
          \<and> end_date (trade_step w market to_database s) = end_date s0)"
    by (simp add: in_range_def)
next
  show "current_date_start (start_market start_date s0) = start_date
          \<and> end_date (start_market start_date s0) = end_date s0" by simp
qed

text \<open>While the clock moves forward, the live tail keeps the loop of a market running.\<close>

lemma tail_or_advance_fields:
  "current_date_start (tail_or_advance w s)
     = (if current_date_end s + one_day > end_date s then current_date_end s
        else current_date_start s + one_day)"
  "current_date_end (tail_or_advance w s)
     = (if current_date_end s + one_day > end_date s then now w (length (calls s))
        else current_date_end s + one_day)"
  "end_date (tail_or_advance w s)
     = (if current_date_end s + one_day > end_date s then now w (length (calls s))
        else end_date s)"
  "sleeps (tail_or_advance w s)
     = (if current_date_end s + one_day > end_date s then sleeps s @ [60] else sleeps s)"
  "calls (tail_or_advance w s) = calls s"
  "records (tail_or_advance w s) = records s"
  "stored (tail_or_advance w s) = stored s"
  "logged (tail_or_advance w s) = logged s"
  by (simp_all add: tail_or_advance_def)

lemma complete_market_runs_on:
  assumes clock: "\<And>i j. i < j \<Longrightarrow> now w i < now w j"
    and lt: "start_date < end_date s0" and e0: "\<exists>j\<le>length (calls s0). end_date s0 = now w j"
  shows "complete_market w to_database start_date market s0 = None"
  unfolding complete_market_def
proof (rule py_while_None[where I = "\<lambda>s::walker. current_date_start s < end_date s
          \<and> current_date_start s < current_date_end s
          \<and> (\<exists>j\<le>length (calls s). end_date s = now w j)"])
  fix s :: walker
  assume I: "current_date_start s < end_date s \<and> current_date_start s < current_date_end s
          \<and> (\<exists>j\<le>length (calls s). end_date s = now w j)"
  then obtain j where j: "j \<le> length (calls s)" "end_date s = now w j" by blast
  from I have c: "current_date_start s < clamp_end s" "clamp_end s \<le> end_date s"
    by (simp_all add: clamp_end_def)
  let ?s' = "complete_step w market to_database s"
  have ex: "\<exists>j\<le>Suc (length (calls s)). end_date s = now w j"
    using j by (intro exI[of _ j]) simp
  have "current_date_start ?s' < end_date ?s' \<and> current_date_start ?s' < current_date_end ?s'
          \<and> (\<exists>j\<le>length (calls ?s'). end_date ?s' = now w j)"
  proof (cases "trade_try w (length (calls s)) market (current_date_start s) (clamp_end s) to_database")
    case (Inl e)
    show ?thesis using I c ex by (simp add: complete_step_failed[OF Inl])
  next
    case (Inr batch)
    have later: "now w j < now w (Suc (length (calls s)))" using j(1) by (intro clock) simp
    show ?thesis
    proof (cases "clamp_end s + one_day > end_date s")
      case True
      then show ?thesis using c j later
        by (auto simp: complete_step_delivered[OF Inr] tail_or_advance_fields)
    next
      case False
      then have "current_date_start s + one_day < end_date s" using c by simp
      then show ?thesis using False c ex
        by (simp add: complete_step_delivered[OF Inr] tail_or_advance_fields)
    qed
  qed
  with I show "in_range s \<and> (current_date_start ?s' < end_date ?s'
          \<and> current_date_start ?s' < current_date_end ?s'
          \<and> (\<exists>j\<le>length (calls ?s'). end_date ?s' = now w j))"
    by (simp add: in_range_def)
next
  show "current_date_start (start_market start_date s0) < end_date (start_market start_date s0)
     \<and> current_date_start (start_market start_date s0) < current_date_end (start_market start_date s0)
     \<and> (\<exists>j\<le>length (calls (start_market start_date s0)). end_date (start_market start_date s0) = now w j)"
    using lt e0 by (simp add: one_day_def one_microsecond_def)
qed

lemmas datetime_eval = datetime_def ymd2ord_def days_before_year_def days_before_month_def
  is_leap_def

lemmas windows_eval = windows_def window_count_def window_at_def one_day_def one_microsecond_def

lemma up_world_trades:
  "\<exists>batch. trade_try up_world n market a b False = Inr batch"
  by (simp add: trade_try_def up_world_def down_world_def update_items_def tag_trade_def
      deliver_def)

lemma down_world_charts: "return_chart_data down_world n market a b period = Inl TypeError"
  by (simp add: down_world_def)

lemma down_world_trades: "return_public_trade_history down_world n market a b = Inl TypeError"
  by (simp add: down_world_def)

text \<open>
  Claim C1, as amended. For \<open>start_date < end_date\<close>, the requests that
  \<^verbatim>\<open>get_trade_history_between_dates\<close> has made for a market when its loop returns, and
  those that \<^verbatim>\<open>get_chart_data_between_dates\<close> makes (its loop always returns), are,
  repetitions of a retried window apart, exactly the windows of the specification; with
  no failed attempt the trade loop returns and nothing is repeated. These windows start at
  \<open>start_date\<close>, each next one starts one microsecond after the previous one ends, each
  is shorter than a day and ends no later than \<open>end_date\<close> (the clamp is applied before the
  request), and the last one ends at \<open>end_date\<close>, except when the range is a whole number
  of days: then it ends one microsecond before \<open>end_date\<close>.
\<close>
theorem sync_windows:
  assumes "start_date < end_date s0"
  shows "(\<forall>s'. trade_market w to_database start_date market s0 = Some s' \<longrightarrow>
            remdups_adj (drop (length (calls s0)) (calls s'))
              = map (Pair market) (windows start_date (end_date s0)))
       \<and> ((\<forall>n a b. \<exists>batch. trade_try w n market a b to_database = Inr batch) \<longrightarrow>
            (\<exists>s'. trade_market w to_database start_date market s0 = Some s'
                \<and> drop (length (calls s0)) (calls s')
                    = map (Pair market) (windows start_date (end_date s0))))
       \<and> (\<exists>s'. chart_market w period to_database start_date market s0 = Some s'
              \<and> remdups_adj (drop (length (calls s0)) (calls s'))
                  = map (Pair market) (windows start_date (end_date s0)))
       \<and> windows start_date (end_date s0) \<noteq> []
       \<and> fst (hd (windows start_date (end_date s0))) = start_date
       \<and> (\<forall>i. Suc i < length (windows start_date (end_date s0)) \<longrightarrow>
             fst (windows start_date (end_date s0) ! Suc i)
               = snd (windows start_date (end_date s0) ! i) + one_microsecond)
       \<and> (\<forall>p\<in>set (windows start_date (end_date s0)).
             fst p < snd p \<and> snd p - fst p < one_day \<and> snd p \<le> end_date s0)
       \<and> snd (last (windows start_date (end_date s0)))
           = (if (end_date s0 - start_date) mod one_day = 0
              then end_date s0 - one_microsecond else end_date s0)"
proof -
  note shape = windows_shape[OF assms]
  have 1: "\<forall>s'. trade_market w to_database start_date market s0 = Some s' \<longrightarrow>
            remdups_adj (drop (length (calls s0)) (calls s'))
              = map (Pair market) (windows start_date (end_date s0))"
    using trade_market_requests[OF _ assms] by blast
  have 2: "(\<forall>n a b. \<exists>batch. trade_try w n market a b to_database = Inr batch) \<longrightarrow>
            (\<exists>s'. trade_market w to_database start_date market s0 = Some s'
                \<and> drop (length (calls s0)) (calls s')
                    = map (Pair market) (windows start_date (end_date s0)))"
    using trade_market_all_delivered[OF _ assms] by blast
  have 3: "\<exists>s'. chart_market w period to_database start_date market s0 = Some s'
              \<and> remdups_adj (drop (length (calls s0)) (calls s'))
                  = map (Pair market) (windows start_date (end_date s0))"
    using chart_market_returns chart_market_requests[OF _ assms] by blast
  from 1 2 3 shape show ?thesis by blast
qed

text \<open>
  A day and a half from 2017-01-01 on the exchange that cannot be reached: the candle sync
  returns, having asked for the full first day and for the clamped second one.
\<close>

theorem sync_windows_witness:
  "datetime 2017 1 1 0 0 0 0 < end_date (fresh (datetime 2017 1 2 12 0 0 0))
   \<and> (\<exists>s'. chart_market down_world 300 True (datetime 2017 1 1 0 0 0 0) ''BTC_BCN''
               (fresh (datetime 2017 1 2 12 0 0 0)) = Some s'
          \<and> remdups_adj (calls s')
              = [(''BTC_BCN'', datetime 2017 1 1 0 0 0 0, datetime 2017 1 1 23 59 59 999999),
                 (''BTC_BCN'', datetime 2017 1 2 0 0 0 0, datetime 2017 1 2 12 0 0 0)])"
proof -
  have lt: "datetime 2017 1 1 0 0 0 0 < end_date (fresh (datetime 2017 1 2 12 0 0 0))"
    by (simp add: fresh_def datetime_eval)
  have w: "windows (datetime 2017 1 1 0 0 0 0) (datetime 2017 1 2 12 0 0 0)
             = [(datetime 2017 1 1 0 0 0 0, datetime 2017 1 1 23 59 59 999999),
                (datetime 2017 1 2 0 0 0 0, datetime 2017 1 2 12 0 0 0)]"
    by (simp add: windows_eval datetime_eval upt_conv_Cons)
  have e: "end_date (fresh (datetime 2017 1 2 12 0 0 0)) = datetime 2017 1 2 12 0 0 0"
    "calls (fresh (datetime 2017 1 2 12 0 0 0)) = []"
    by (simp_all add: fresh_def)
  from sync_windows[OF lt, of down_world True "''BTC_BCN''" 300]
  have "\<exists>s'. chart_market down_world 300 True (datetime 2017 1 1 0 0 0 0) ''BTC_BCN''
               (fresh (datetime 2017 1 2 12 0 0 0)) = Some s'
          \<and> remdups_adj (drop (length (calls (fresh (datetime 2017 1 2 12 0 0 0)))) (calls s'))
              = map (Pair ''BTC_BCN'')
                  (windows (datetime 2017 1 1 0 0 0 0)
                     (end_date (fresh (datetime 2017 1 2 12 0 0 0))))"
    by blast
  then have "\<exists>s'. chart_market down_world 300 True (datetime 2017 1 1 0 0 0 0) ''BTC_BCN''
               (fresh (datetime 2017 1 2 12 0 0 0)) = Some s'
          \<and> remdups_adj (calls s')
              = [(''BTC_BCN'', datetime 2017 1 1 0 0 0 0, datetime 2017 1 1 23 59 59 999999),
                 (''BTC_BCN'', datetime 2017 1 2 0 0 0 0, datetime 2017 1 2 12 0 0 0)]"
    unfolding e w by simp
  with lt show ?thesis by blast
qed

text \<open>
  Against C1 as stated: over the one day from 2017-01-01 to 2017-01-02 the trade sync makes
  a single request, and its end is 23:59:59.999999 of the first day, not \<open>end_date\<close>.
\<close>

theorem final_window_end_counterexample:
  "map_option calls (trade_market up_world False (datetime 2017 1 1 0 0 0 0) ''BTC_ETH''
                       (fresh (datetime 2017 1 2 0 0 0 0)))
     = Some [(''BTC_ETH'', datetime 2017 1 1 0 0 0 0, datetime 2017 1 1 23 59 59 999999)]
   \<and> datetime 2017 1 1 23 59 59 999999 \<noteq> datetime 2017 1 2 0 0 0 0"
proof -
  have lt: "datetime 2017 1 1 0 0 0 0 < end_date (fresh (datetime 2017 1 2 0 0 0 0))"
    by (simp add: fresh_def datetime_eval)
  have w: "windows (datetime 2017 1 1 0 0 0 0) (datetime 2017 1 2 0 0 0 0)
             = [(datetime 2017 1 1 0 0 0 0, datetime 2017 1 1 23 59 59 999999)]"
    by (simp add: windows_eval datetime_eval upt_conv_Cons)
  have ok: "\<forall>n a b. \<exists>batch. trade_try up_world n ''BTC_ETH'' a b False = Inr batch"
    using up_world_trades by blast
  have e: "end_date (fresh (datetime 2017 1 2 0 0 0 0)) = datetime 2017 1 2 0 0 0 0"
    "calls (fresh (datetime 2017 1 2 0 0 0 0)) = []"
    by (simp_all add: fresh_def)
  from trade_market_all_delivered[OF ok lt]
  have "map_option calls (trade_market up_world False (datetime 2017 1 1 0 0 0 0) ''BTC_ETH''
                       (fresh (datetime 2017 1 2 0 0 0 0)))
     = Some [(''BTC_ETH'', datetime 2017 1 1 0 0 0 0, datetime 2017 1 1 23 59 59 999999)]"
    unfolding e w by auto
  moreover have "datetime 2017 1 1 23 59 59 999999 \<noteq> datetime 2017 1 2 0 0 0 0"
    by (simp add: datetime_eval)
  ultimately show ?thesis by blast
qed













lemma for_markets_single:
  "for_markets f [market] s = f market s"
  by (cases "f market s") simp_all

lemma down_world_clock: "i < j \<Longrightarrow> now down_world i < now down_world j"
  by (simp add: down_world_def)

lemma up_world_clock: "i < j \<Longrightarrow> now up_world i < now up_world j"
  by (simp add: up_world_def down_world_def)

lemma chart_step_failed_stored:
  assumes "chart_try w (length (calls s)) market (current_date_start s) (clamp_end s) period
             to_database = Inl e"
  shows "stored (chart_step w market period to_database s) = stored s"
  by (simp add: chart_step_failed[OF assms] Let_def)

text \<open>
  Claim C3, on the code. On an exchange that cannot be reached,
  \<^verbatim>\<open>get_trade_history_between_dates\<close> and \<^verbatim>\<open>get_complete_trade_history\<close> never return for
  one market and one day: they have no attempt counter and ask for the same window for
  ever. \<^verbatim>\<open>get_chart_data_between_dates\<close>, which has the counter, returns.
\<close>
theorem unreachable_exchange_spins:
  "get_trade_history_between_dates down_world new_client (datetime 2017 1 1 0 0 0 0)
      (datetime 2017 1 2 0 0 0 0) (Some [''BTC_ETH'']) False = None
   \<and> get_complete_trade_history down_world new_client (datetime 2017 1 1 0 0 0 0)
      (Some [''BTC_ETH'']) False = None
   \<and> get_chart_data_between_dates down_world new_client (datetime 2017 1 1 0 0 0 0)
      (datetime 2017 1 2 0 0 0 0) 300 (Some [''BTC_ETH'']) False \<noteq> None"
proof -
  have lt: "datetime 2017 1 1 0 0 0 0 < end_date (fresh (datetime 2017 1 2 0 0 0 0))"
    by (simp add: fresh_def datetime_eval)
  have "trade_market down_world False (datetime 2017 1 1 0 0 0 0) ''BTC_ETH''
          (fresh (datetime 2017 1 2 0 0 0 0)) = None"
    by (rule trade_market_stuck[OF _ lt]) (simp add: down_world_trades)
  then have 1: "get_trade_history_between_dates down_world new_client (datetime 2017 1 1 0 0 0 0)
      (datetime 2017 1 2 0 0 0 0) (Some [''BTC_ETH'']) False = None"
    by (simp add: get_trade_history_between_dates_def pairs_or_def for_markets_single)
  have lt': "datetime 2017 1 1 0 0 0 0 < end_date (fresh (now down_world 0))"
    by (simp add: fresh_def down_world_def datetime_eval)
  have "complete_market down_world False (datetime 2017 1 1 0 0 0 0) ''BTC_ETH''
          (fresh (now down_world 0)) = None"
    by (rule complete_market_runs_on[OF down_world_clock lt']) (simp_all add: fresh_def)
  then have 2: "get_complete_trade_history down_world new_client (datetime 2017 1 1 0 0 0 0)
      (Some [''BTC_ETH'']) False = None"
    by (simp add: get_complete_trade_history_def complete_run_def for_markets_single)
  from chart_market_returns[of down_world 300 False "datetime 2017 1 1 0 0 0 0" "''BTC_ETH''"
      "fresh (datetime 2017 1 2 0 0 0 0)"]
  have 3: "get_chart_data_between_dates down_world new_client (datetime 2017 1 1 0 0 0 0)
      (datetime 2017 1 2 0 0 0 0) 300 (Some [''BTC_ETH'']) False \<noteq> None"
    by (auto simp: get_chart_data_between_dates_def pairs_or_def for_markets_single)
  from 1 2 3 show ?thesis by blast
qed

text \<open>
  Claim C4, as amended. When the \<^verbatim>\<open>try\<close> block of a pass raises, the pass ends normally
  with the exception logged, and \<^verbatim>\<open>end_date\<close>, the accumulated records and the stored
  batches as they were. In \<^verbatim>\<open>get_trade_history_between_dates\<close> and
  \<^verbatim>\<open>get_complete_trade_history\<close> the window keeps its start and its clamped end, so the
  next pass asks for the same window. In \<^verbatim>\<open>get_chart_data_between_dates\<close> this holds
  unless the attempt was the fifth on this window start: then start and end move by one
  day.
\<close>
theorem failed_attempt_keeps_window:
  "(trade_try w (length (calls s)) market (current_date_start s) (clamp_end s) to_database
      = Inl e \<longrightarrow>
      current_date_start (trade_step w market to_database s) = current_date_start s
      \<and> current_date_end (trade_step w market to_database s) = clamp_end s
      \<and> clamp_end (trade_step w market to_database s) = clamp_end s
      \<and> end_date (trade_step w market to_database s) = end_date s
      \<and> records (trade_step w market to_database s) = records s
      \<and> stored (trade_step w market to_database s) = stored s
      \<and> logged (trade_step w market to_database s) = logged s @ [e]
      \<and> current_date_start (complete_step w market to_database s) = current_date_start s
      \<and> current_date_end (complete_step w market to_database s) = clamp_end s
      \<and> clamp_end (complete_step w market to_database s) = clamp_end s
      \<and> end_date (complete_step w market to_database s) = end_date s
      \<and> records (complete_step w market to_database s) = records s
      \<and> stored (complete_step w market to_database s) = stored s
      \<and> logged (complete_step w market to_database s) = logged s @ [e])
   \<and> (chart_try w (length (calls s)) market (current_date_start s) (clamp_end s) period
         to_database = Inl e \<longrightarrow>
      end_date (chart_step w market period to_database s) = end_date s
      \<and> records (chart_step w market period to_database s) = records s
      \<and> stored (chart_step w market period to_database s) = stored s
      \<and> logged (chart_step w market period to_database s) = logged s @ [e]
      \<and> (if tries s = 4
         then current_date_start (chart_step w market period to_database s)
                = current_date_start s + one_day
              \<and> current_date_end (chart_step w market period to_database s)
                = clamp_end s + one_day
         else current_date_start (chart_step w market period to_database s)
                = current_date_start s
              \<and> current_date_end (chart_step w market period to_database s) = clamp_end s
              \<and> clamp_end (chart_step w market period to_database s) = clamp_end s))"
proof (intro conjI impI)
  assume f: "chart_try w (length (calls s)) market (current_date_start s) (clamp_end s) period
         to_database = Inl e"
  note flds = chart_step_failed_fields[OF f] chart_step_failed_stored[OF f]
  show "if tries s = 4
         then current_date_start (chart_step w market period to_database s)
                = current_date_start s + one_day
              \<and> current_date_end (chart_step w market period to_database s)
                = clamp_end s + one_day
         else current_date_start (chart_step w market period to_database s)
                = current_date_start s
              \<and> current_date_end (chart_step w market period to_database s) = clamp_end s
              \<and> clamp_end (chart_step w market period to_database s) = clamp_end s"
    using flds(1,2,3) by (simp add: clamp_end_again)
qed (simp_all add: trade_step_failed complete_step_failed chart_step_failed_fields
    chart_step_failed_stored clamp_end_def)

text \<open>A failed first attempt of the trade sync on the exchange that cannot be reached.\<close>

theorem failed_attempt_keeps_window_witness:
  "trade_try down_world 0 ''BTC_ETH'' (datetime 2017 1 1 0 0 0 0)
      (datetime 2017 1 1 23 59 59 999999) False = Inl TypeError
   \<and> current_date_start (trade_step down_world ''BTC_ETH'' False
        (start_market (datetime 2017 1 1 0 0 0 0) (fresh (datetime 2017 1 3 0 0 0 0))))
       = datetime 2017 1 1 0 0 0 0
   \<and> current_date_end (trade_step down_world ''BTC_ETH'' False
        (start_market (datetime 2017 1 1 0 0 0 0) (fresh (datetime 2017 1 3 0 0 0 0))))
       = datetime 2017 1 1 23 59 59 999999
   \<and> records (trade_step down_world ''BTC_ETH'' False
        (start_market (datetime 2017 1 1 0 0 0 0) (fresh (datetime 2017 1 3 0 0 0 0)))) = []
   \<and> logged (trade_step down_world ''BTC_ETH'' False
        (start_market (datetime 2017 1 1 0 0 0 0) (fresh (datetime 2017 1 3 0 0 0 0))))
       = [TypeError]"
proof -
  let ?s = "start_market (datetime 2017 1 1 0 0 0 0) (fresh (datetime 2017 1 3 0 0 0 0))"
  have c: "clamp_end ?s = datetime 2017 1 1 23 59 59 999999"
    by (simp add: clamp_end_def fresh_def datetime_eval one_day_def one_microsecond_def)
  have f: "trade_try down_world (length (calls ?s)) ''BTC_ETH'' (current_date_start ?s)
             (clamp_end ?s) False = Inl TypeError"
    by (rule trade_try_unreachable) (rule down_world_trades)
  have n: "length (calls ?s) = 0" "current_date_start ?s = datetime 2017 1 1 0 0 0 0"
    "records ?s = []" "logged ?s = []"
    by (simp_all add: fresh_def)
  from failed_attempt_keeps_window[of down_world ?s "''BTC_ETH''" False TypeError 300] f
  show ?thesis unfolding c n by simp
qed

text \<open>
  Against C4 as stated: in the candle sync the fifth attempt on the window of 2017-01-01
  raises, and the window start is 2017-01-02 after it, not what it was before it.
\<close>

theorem fifth_failure_moves_window_counterexample:
  "chart_try down_world 4 ''BTC_BCN'' (datetime 2017 1 1 0 0 0 0)
      (datetime 2017 1 1 23 59 59 999999) 300 True = Inl TypeError
   \<and> current_date_start ((chart_step down_world ''BTC_BCN'' 300 True ^^ 4)
        (start_market (datetime 2017 1 1 0 0 0 0) (fresh (datetime 2017 1 3 0 0 0 0))))
       = datetime 2017 1 1 0 0 0 0
   \<and> current_date_start ((chart_step down_world ''BTC_BCN'' 300 True ^^ 5)
        (start_market (datetime 2017 1 1 0 0 0 0) (fresh (datetime 2017 1 3 0 0 0 0))))
       = datetime 2017 1 2 0 0 0 0
   \<and> datetime 2017 1 2 0 0 0 0 \<noteq> datetime 2017 1 1 0 0 0 0"
proof -
  let ?s = "start_market (datetime 2017 1 1 0 0 0 0) (fresh (datetime 2017 1 3 0 0 0 0))"
  have fail: "\<And>n a b. \<exists>e. return_chart_data down_world n ''BTC_BCN'' a b 300 = Inl e"
    by (simp add: down_world_charts)
  have t: "tries ?s = 0" by (simp add: tries_def)
  have d: "datetime 2017 1 1 0 0 0 0 + one_day = datetime 2017 1 2 0 0 0 0"
    by (simp add: datetime_eval one_day_def)
  have 1: "chart_try down_world 4 ''BTC_BCN'' (datetime 2017 1 1 0 0 0 0)
      (datetime 2017 1 1 23 59 59 999999) 300 True = Inl TypeError"
    by (rule chart_try_unreachable) (rule down_world_charts)
  have 2: "current_date_start ((chart_step down_world ''BTC_BCN'' 300 True ^^ 4) ?s)
       = datetime 2017 1 1 0 0 0 0"
    using chart_fail_iter[OF fail t, of 4 True] by simp
  have 3: "current_date_start ((chart_step down_world ''BTC_BCN'' 300 True ^^ 5) ?s)
       = datetime 2017 1 2 0 0 0 0"
    using chart_fail_fifth(1)[OF fail t, of True] d by simp
  have 4: "datetime 2017 1 2 0 0 0 0 \<noteq> datetime 2017 1 1 0 0 0 0"
    by (simp add: datetime_eval)
  from 1 2 3 4 show ?thesis by blast
qed

lemma complete_step_delivered_fields:
  assumes "trade_try w (length (calls s)) market (current_date_start s) (clamp_end s) to_database
             = Inr batch"
  shows "current_date_start (complete_step w market to_database s)
           = (if clamp_end s + one_day > end_date s then clamp_end s
              else current_date_start s + one_day)"
    and "current_date_end (complete_step w market to_database s)
           = (if clamp_end s + one_day > end_date s then now w (Suc (length (calls s)))
              else clamp_end s + one_day)"
    and "end_date (complete_step w market to_database s)
           = (if clamp_end s + one_day > end_date s then now w (Suc (length (calls s)))
              else end_date s)"
    and "sleeps (complete_step w market to_database s)
           = (if clamp_end s + one_day > end_date s then sleeps s @ [60] else sleeps s)"
  by (simp_all add: complete_step_delivered[OF assms] tail_or_advance_fields)

text \<open>
  Claim C5, as amended. In \<^verbatim>\<open>get_complete_trade_history\<close>, after a batch has been
  delivered: when the window end plus one day is later than \<^verbatim>\<open>end_date\<close> (the clock as
  read at entry or at the last refresh), which is so in particular when the window end
  has reached \<^verbatim>\<open>end_date\<close>, the window start becomes the old window end, the function
  sleeps 60 seconds, and window end and \<^verbatim>\<open>end_date\<close> both become a fresh reading of the
  clock; the loop goes on exactly when that reading is later than the old window end.
  Otherwise, also when the window end plus one day equals \<^verbatim>\<open>end_date\<close>, the window moves
  by one day. With a clock that moves forward and a start in the past the loop of a
  market never returns.
\<close>
theorem live_tail:
  "(trade_try w (length (calls s)) market (current_date_start s) (clamp_end s) to_database
      = Inr batch \<longrightarrow>
      (if clamp_end s + one_day > end_date s
       then current_date_start (complete_step w market to_database s) = clamp_end s
            \<and> sleeps (complete_step w market to_database s) = sleeps s @ [60]
            \<and> current_date_end (complete_step w market to_database s)
                = now w (Suc (length (calls s)))
            \<and> end_date (complete_step w market to_database s) = now w (Suc (length (calls s)))
            \<and> (in_range (complete_step w market to_database s)
                 \<longleftrightarrow> clamp_end s < now w (Suc (length (calls s))))
       else current_date_start (complete_step w market to_database s)
              = current_date_start s + one_day
            \<and> current_date_end (complete_step w market to_database s) = clamp_end s + one_day
            \<and> end_date (complete_step w market to_database s) = end_date s
            \<and> sleeps (complete_step w market to_database s) = sleeps s)
      \<and> (end_date s \<le> current_date_end s \<longrightarrow> clamp_end s + one_day > end_date s))
   \<and> ((\<forall>i j. i < j \<longrightarrow> now w i < now w j) \<and> start_date < now w 0 \<longrightarrow>
        complete_market w to_database start_date market (fresh (now w 0)) = None)"
proof (intro conjI impI)
  assume ok: "trade_try w (length (calls s)) market (current_date_start s) (clamp_end s)
      to_database = Inr batch"
  note flds = complete_step_delivered_fields[OF ok]
  show "if clamp_end s + one_day > end_date s
       then current_date_start (complete_step w market to_database s) = clamp_end s
            \<and> sleeps (complete_step w market to_database s) = sleeps s @ [60]
            \<and> current_date_end (complete_step w market to_database s)
                = now w (Suc (length (calls s)))
            \<and> end_date (complete_step w market to_database s) = now w (Suc (length (calls s)))
            \<and> (in_range (complete_step w market to_database s)
                 \<longleftrightarrow> clamp_end s < now w (Suc (length (calls s))))
       else current_date_start (complete_step w market to_database s)
              = current_date_start s + one_day
            \<and> current_date_end (complete_step w market to_database s) = clamp_end s + one_day
            \<and> end_date (complete_step w market to_database s) = end_date s
            \<and> sleeps (complete_step w market to_database s) = sleeps s"
    by (simp add: flds in_range_def)
next
  assume "end_date s \<le> current_date_end s"
  then show "clamp_end s + one_day > end_date s"
    by (simp add: clamp_end_def one_day_def)
next
  assume a: "(\<forall>i j. i < j \<longrightarrow> now w i < now w j) \<and> start_date < now w 0"
  then have clock: "\<And>i j. i < j \<Longrightarrow> now w i < now w j" by blast
  from a have lt: "start_date < end_date (fresh (now w 0))" by (simp add: fresh_def)
  show "complete_market w to_database start_date market (fresh (now w 0)) = None"
    by (rule complete_market_runs_on[OF clock lt]) (simp_all add: fresh_def)
qed

text \<open>
  A window from noon of 2017-08-18 with the clock read as 2017-08-19 00:00:00 at entry: the
  end is clamped to that reading, the batch is delivered, and the live tail starts the
  next window there, the clock being read again a minute later. From that start the loop
  of the market never returns.
\<close>

theorem live_tail_witness:
  "current_date_start (complete_step up_world ''BTC_ETH'' False
      (start_market (datetime 2017 8 18 12 0 0 0) (fresh (datetime 2017 8 19 0 0 0 0))))
     = datetime 2017 8 19 0 0 0 0
   \<and> sleeps (complete_step up_world ''BTC_ETH'' False
      (start_market (datetime 2017 8 18 12 0 0 0) (fresh (datetime 2017 8 19 0 0 0 0)))) = [60]
   \<and> end_date (complete_step up_world ''BTC_ETH'' False
      (start_market (datetime 2017 8 18 12 0 0 0) (fresh (datetime 2017 8 19 0 0 0 0))))
     = datetime 2017 8 19 0 1 0 0
   \<and> in_range (complete_step up_world ''BTC_ETH'' False
      (start_market (datetime 2017 8 18 12 0 0 0) (fresh (datetime 2017 8 19 0 0 0 0))))
   \<and> complete_market up_world False (datetime 2017 8 18 12 0 0 0) ''BTC_ETH''
       (fresh (now up_world 0)) = None"
proof -
  let ?s = "start_market (datetime 2017 8 18 12 0 0 0) (fresh (datetime 2017 8 19 0 0 0 0))"
  obtain batch where ok: "trade_try up_world (length (calls ?s)) ''BTC_ETH''
      (current_date_start ?s) (clamp_end ?s) False = Inr batch"
    using up_world_trades by blast
  have c: "clamp_end ?s = datetime 2017 8 19 0 0 0 0" "end_date ?s = datetime 2017 8 19 0 0 0 0"
    "sleeps ?s = []" "length (calls ?s) = 0"
    by (simp_all add: clamp_end_def fresh_def datetime_eval one_day_def one_microsecond_def)
  have n: "now up_world (Suc 0) = datetime 2017 8 19 0 1 0 0"
    "datetime 2017 8 19 0 0 0 0 + one_day > datetime 2017 8 19 0 0 0 0"
    "datetime 2017 8 19 0 0 0 0 < datetime 2017 8 19 0 1 0 0"
    "datetime 2017 8 18 12 0 0 0 < now up_world 0"
    by (simp_all add: up_world_def down_world_def datetime_eval one_day_def)
  have clock: "\<forall>i j. i < j \<longrightarrow> now up_world i < now up_world j"
    using up_world_clock by blast
  from live_tail[of up_world ?s "''BTC_ETH''" False batch "datetime 2017 8 18 12 0 0 0"]
    ok clock n(4)
  have "(if clamp_end ?s + one_day > end_date ?s
       then current_date_start (complete_step up_world ''BTC_ETH'' False ?s) = clamp_end ?s
            \<and> sleeps (complete_step up_world ''BTC_ETH'' False ?s) = sleeps ?s @ [60]
            \<and> current_date_end (complete_step up_world ''BTC_ETH'' False ?s)
                = now up_world (Suc (length (calls ?s)))
            \<and> end_date (complete_step up_world ''BTC_ETH'' False ?s)
                = now up_world (Suc (length (calls ?s)))
            \<and> (in_range (complete_step up_world ''BTC_ETH'' False ?s)
                 \<longleftrightarrow> clamp_end ?s < now up_world (Suc (length (calls ?s))))
       else current_date_start (complete_step up_world ''BTC_ETH'' False ?s)
              = current_date_start ?s + one_day
            \<and> current_date_end (complete_step up_world ''BTC_ETH'' False ?s)
                = clamp_end ?s + one_day
            \<and> end_date (complete_step up_world ''BTC_ETH'' False ?s) = end_date ?s
            \<and> sleeps (complete_step up_world ''BTC_ETH'' False ?s) = sleeps ?s)"
    and "complete_market up_world False (datetime 2017 8 18 12 0 0 0) ''BTC_ETH''
       (fresh (now up_world 0)) = None"
    by blast+
  then show ?thesis unfolding c n(1) using n(2,3) by simp
qed

text \<open>
  Against C5 as stated. With \<^verbatim>\<open>end_date\<close> exactly one day after the window end, the next
  window end would equal it, and there is no live tail: no sleep, \<^verbatim>\<open>end_date\<close> as it
  was. With \<^verbatim>\<open>end_date\<close> an hour after the window end, the window end has not reached
  it, and the live tail is taken all the same.
\<close>

theorem live_tail_trigger_counterexample:
  "clamp_end (start_market (datetime 2017 8 17 0 0 0 0) (fresh (datetime 2017 8 18 23 59 59 999999)))
     + one_day
     = end_date (start_market (datetime 2017 8 17 0 0 0 0) (fresh (datetime 2017 8 18 23 59 59 999999)))
   \<and> sleeps (complete_step up_world ''BTC_ETH'' False
        (start_market (datetime 2017 8 17 0 0 0 0) (fresh (datetime 2017 8 18 23 59 59 999999)))) = []
   \<and> end_date (complete_step up_world ''BTC_ETH'' False
        (start_market (datetime 2017 8 17 0 0 0 0) (fresh (datetime 2017 8 18 23 59 59 999999))))
       = datetime 2017 8 18 23 59 59 999999
   \<and> clamp_end (start_market (datetime 2017 8 17 0 0 0 0) (fresh (datetime 2017 8 18 1 0 0 0)))
       < end_date (start_market (datetime 2017 8 17 0 0 0 0) (fresh (datetime 2017 8 18 1 0 0 0)))
   \<and> sleeps (complete_step up_world ''BTC_ETH'' False
        (start_market (datetime 2017 8 17 0 0 0 0) (fresh (datetime 2017 8 18 1 0 0 0)))) = [60]
   \<and> current_date_start (complete_step up_world ''BTC_ETH'' False
        (start_market (datetime 2017 8 17 0 0 0 0) (fresh (datetime 2017 8 18 1 0 0 0))))
       = datetime 2017 8 17 23 59 59 999999"
proof -
  let ?s1 = "start_market (datetime 2017 8 17 0 0 0 0) (fresh (datetime 2017 8 18 23 59 59 999999))"
  let ?s2 = "start_market (datetime 2017 8 17 0 0 0 0) (fresh (datetime 2017 8 18 1 0 0 0))"
  obtain b1 where ok1: "trade_try up_world (length (calls ?s1)) ''BTC_ETH''
      (current_date_start ?s1) (clamp_end ?s1) False = Inr b1"
    using up_world_trades by blast
  obtain b2 where ok2: "trade_try up_world (length (calls ?s2)) ''BTC_ETH''
      (current_date_start ?s2) (clamp_end ?s2) False = Inr b2"
    using up_world_trades by blast
  have c1: "clamp_end ?s1 = datetime 2017 8 17 23 59 59 999999"
    "end_date ?s1 = datetime 2017 8 18 23 59 59 999999" "sleeps ?s1 = []"
    by (simp_all add: clamp_end_def fresh_def datetime_eval one_day_def one_microsecond_def)
  have c2: "clamp_end ?s2 = datetime 2017 8 17 23 59 59 999999"
    "end_date ?s2 = datetime 2017 8 18 1 0 0 0" "sleeps ?s2 = []"
    by (simp_all add: clamp_end_def fresh_def datetime_eval one_day_def one_microsecond_def)
  have d: "datetime 2017 8 17 23 59 59 999999 + one_day = datetime 2017 8 18 23 59 59 999999"
    "datetime 2017 8 17 23 59 59 999999 < datetime 2017 8 18 1 0 0 0"
    "datetime 2017 8 18 1 0 0 0 < datetime 2017 8 17 23 59 59 999999 + one_day"
    by (simp_all add: datetime_eval one_day_def)
  note f1 = complete_step_delivered_fields[OF ok1]
  note f2 = complete_step_delivered_fields[OF ok2]
  have "sleeps (complete_step up_world ''BTC_ETH'' False ?s1) = []"
    "end_date (complete_step up_world ''BTC_ETH'' False ?s1) = datetime 2017 8 18 23 59 59 999999"
    unfolding f1 c1 using d by simp_all
  moreover have "sleeps (complete_step up_world ''BTC_ETH'' False ?s2) = [60]"
    "current_date_start (complete_step up_world ''BTC_ETH'' False ?s2)
       = datetime 2017 8 17 23 59 59 999999"
    unfolding f2 c2 using d by simp_all
  ultimately show ?thesis unfolding c1 c2 using d by simp
qed

end
